theory Spec2Isabelle
  imports Complex_Main "HOL-Library.Product_Lexorder" "HOL-Library.List_Lexorder"
    "HOL-Library.Multiset" "HOL-Library.AList"
begin

chapter \<open>Marketplace commission service: embedding of the source\<close>

section \<open>Python values shared by all components\<close>

text \<open>
  The definitions keep the names of the source; a name of the source that starts with an
  underscore, such as \<^verbatim>\<open>_fix_scale\<close>, is written without it.

  Python \<open>str\<close> is a sequence of Unicode code points; the Turkish letters the source
  handles lie outside Latin-1, so a string is modelled as the list of its code points.
  \<open>ascii\<close> turns an ASCII literal into such a string.
\<close>

type_synonym ustr = "nat list"

definition ascii :: "string \<Rightarrow> ustr" where
  "ascii s = map of_char s"

text \<open>
  Python \<open>float\<close> arithmetic in \<^verbatim>\<open>app.py\<close> is idealised as exact arithmetic on rationals:
  the binary rounding error of each operation is not modelled. Every raise of the source
  is a value of \<open>py_error\<close>; \<open>Unmodelled\<close> marks an input on which the model does not say
  what the library does.
\<close>

type_synonym pyfloat = rat

datatype py_error =
    ZeroDivisionError
  | DivisionByZero
  | DivisionUndefined
  | InvalidOperation
  | ConversionSyntax
  | ValueError
  | KeyError
  | Unmodelled

text \<open>
  \<open>round(x, 2)\<close> of Python rounds to the nearest multiple of 0.01, an exact tie going to
  the even neighbour.
\<close>

definition round_half_even :: "rat \<Rightarrow> int" where
  "round_half_even x =
     (let f = \<lfloor>x\<rfloor>; d = x - of_int f
      in if d < 1 / 2 then f else if 1 / 2 < d then f + 1 else if even f then f else f + 1)"

definition py_round2 :: "pyfloat \<Rightarrow> pyfloat" where
  "py_round2 x = of_int (round_half_even (x * 100)) / 100"

section \<open>Commission and profit calculation (\<^verbatim>\<open>calculate_commission\<close>)\<close>

text \<open>
  A computation returns its value together with the divisors of the divisions it
  evaluated, in order, or the error it raised. Float division by zero raises
  \<open>ZeroDivisionError\<close>.
\<close>

type_synonym 'a run = "py_error + ('a \<times> pyfloat list)"

definition ret :: "'a \<Rightarrow> 'a run" where
  "ret x = Inr (x, [])"

definition bnd :: "'a run \<Rightarrow> ('a \<Rightarrow> 'b run) \<Rightarrow> 'b run" where
  "bnd m f =
     (case m of
        Inl e \<Rightarrow> Inl e
      | Inr (x, ds) \<Rightarrow> (case f x of Inl e \<Rightarrow> Inl e | Inr (y, ds') \<Rightarrow> Inr (y, ds @ ds')))"

definition fdiv :: "pyfloat \<Rightarrow> pyfloat \<Rightarrow> pyfloat run" where
  "fdiv a b = (if b = 0 then Inl ZeroDivisionError else Inr (a / b, [b]))"


definition divisors_of :: "'a run \<Rightarrow> pyfloat list" where
  "divisors_of m = (case m of Inl e \<Rightarrow> [] | Inr (x, ds) \<Rightarrow> ds)"

text \<open>
  The request parameters after \<^verbatim>\<open>float(params.get(..., 0) or 0)\<close> and
  \<^verbatim>\<open>bool(params.get('includeVatDeduction', False))\<close>.
\<close>

record calc_params =
  salePrice :: pyfloat
  buyPrice :: pyfloat
  cargoPrice :: pyfloat
  vatPercent :: pyfloat
  commissionPercent :: pyfloat
  servicePercent :: pyfloat
  exportPercent :: pyfloat
  includeVatDeduction :: bool

text \<open>The only message the calculation reports: the sale price must be greater than 0.\<close>

datatype calc_message = SalePriceMustBePositive

record calc_result =
  marketplace :: string
  payout :: pyfloat
  netProfit :: pyfloat
  profitMargin :: pyfloat
  netMargin :: pyfloat
  detailedProfitNet :: pyfloat
  commissionAmount :: pyfloat
  serviceAmount :: pyfloat
  exportAmount :: pyfloat
  cargoDeduction :: pyfloat
  saleVat :: pyfloat
  buyVat :: pyfloat
  commVat :: pyfloat
  servVat :: pyfloat
  expVat :: pyfloat
  inputVat :: pyfloat
  vatPayable :: pyfloat
  error :: "calc_message option"
  params :: "calc_params option"

definition extract_vat_share :: "pyfloat \<Rightarrow> pyfloat \<Rightarrow> pyfloat run" where
  "extract_vat_share gross vat_percent =
     (if 0 < vat_percent
      then bnd (fdiv vat_percent (100 + vat_percent)) (\<lambda>q. ret (gross * q))
      else ret 0)"

definition empty_calc_result :: "string \<Rightarrow> calc_message \<Rightarrow> calc_result" where
  "empty_calc_result marketplace_id error_msg =
     \<lparr> marketplace = marketplace_id, payout = 0, netProfit = 0, profitMargin = 0,
       netMargin = 0, detailedProfitNet = 0, commissionAmount = 0, serviceAmount = 0,
       exportAmount = 0, cargoDeduction = 0, saleVat = 0, buyVat = 0, commVat = 0,
       servVat = 0, expVat = 0, inputVat = 0, vatPayable = 0,
       error = Some error_msg, params = None \<rparr>"

definition calculate_commission :: "string \<Rightarrow> calc_params \<Rightarrow> calc_result run" where
  "calculate_commission marketplace_id ps =
     (let sale_price = salePrice ps; buy_price = buyPrice ps; cargo_price = cargoPrice ps;
          vat_percent = vatPercent ps
      in if sale_price \<le> 0
         then ret (empty_calc_result marketplace_id SalePriceMustBePositive)
         else
           bnd (fdiv (sale_price * commissionPercent ps) 100) (\<lambda>commission_amount.
           bnd (fdiv (sale_price * servicePercent ps) 100) (\<lambda>service_amount.
           bnd (fdiv (sale_price * exportPercent ps) 100) (\<lambda>export_amount.
           let cargo_deduction = cargo_price;
               payout_raw = sale_price
                 - (commission_amount + service_amount + export_amount + cargo_deduction);
               net_profit = payout_raw - buy_price
           in
           bnd (if 0 < sale_price
                then bnd (fdiv net_profit sale_price) (\<lambda>q. ret (q * 100))
                else ret 0) (\<lambda>profit_margin.
           bnd (extract_vat_share sale_price vat_percent) (\<lambda>sale_vat.
           bnd (extract_vat_share buy_price vat_percent) (\<lambda>buy_vat.
           bnd (extract_vat_share commission_amount vat_percent) (\<lambda>comm_vat.
           bnd (extract_vat_share service_amount vat_percent) (\<lambda>serv_vat.
           bnd (extract_vat_share export_amount vat_percent) (\<lambda>exp_vat.
           let input_vat =
                 (if includeVatDeduction ps then buy_vat + (comm_vat + serv_vat + exp_vat)
                  else buy_vat);
               vat_payable = max (sale_vat - input_vat) 0
           in ret
             \<lparr> marketplace = marketplace_id,
               payout = py_round2 payout_raw,
               netProfit = py_round2 net_profit,
               profitMargin = py_round2 profit_margin,
               netMargin = py_round2 profit_margin,
               detailedProfitNet = py_round2 net_profit,
               commissionAmount = py_round2 commission_amount,
               serviceAmount = py_round2 service_amount,
               exportAmount = py_round2 export_amount,
               cargoDeduction = py_round2 cargo_deduction,
               saleVat = py_round2 sale_vat,
               buyVat = py_round2 buy_vat,
               commVat = py_round2 comm_vat,
               servVat = py_round2 serv_vat,
               expVat = py_round2 exp_vat,
               inputVat = py_round2 input_vat,
               vatPayable = py_round2 vat_payable,
               error = None,
               params = Some ps \<rparr>))))))))))"

text \<open>The end-to-end example of the specification, and an input whose amounts are not
  whole cents.\<close>

definition example_params :: calc_params where
  "example_params =
     \<lparr> salePrice = 200, buyPrice = 100, cargoPrice = 20, vatPercent = 20,
       commissionPercent = 10, servicePercent = 0, exportPercent = 0,
       includeVatDeduction = False \<rparr>"


section \<open>Dataset cache and hot reload (\<^verbatim>\<open>refresh_if_changed\<close>)\<close>

text \<open>
  A record of a loaded dataset has the four keys \<^verbatim>\<open>Kategori\<close>, \<^verbatim>\<open>Alt Kategori\<close>,
  \<^verbatim>\<open>Urun Grubu\<close> and \<^verbatim>\<open>Komisyon_%_KDV_Dahil\<close>. The commission cell is a float, the float
  NaN (what \<^verbatim>\<open>pd.to_numeric(..., errors="coerce")\<close> leaves for a missing value) or the
  empty string (what \<^verbatim>\<open>fillna("")\<close> leaves).
\<close>

datatype cell = Num pyfloat | NaN | Blank

record row =
  kategori :: ustr
  alt_kategori :: ustr
  urun_grubu :: ustr
  komisyon :: cell

text \<open>
  The file system and the CSV loader are the environment of the service: whether a path
  exists, its modification time, and what \<^verbatim>\<open>_load_csv_normalized(path, key)\<close> returns or
  raises for it.
\<close>

type_synonym path = string

record world =
  path_exists :: "path \<Rightarrow> bool"
  st_mtime :: "path \<Rightarrow> pyfloat"
  load_csv_normalized :: "path \<Rightarrow> string \<Rightarrow> py_error + row list"

text \<open>
  The service keeps three dictionaries. \<^verbatim>\<open>_files\<close> is iterated, so it is an association
  list in insertion order; \<^verbatim>\<open>_mtimes\<close> and \<^verbatim>\<open>_data\<close> are only read and written by key.
\<close>

record service_state =
  files :: "(string \<times> path) list"
  mtimes :: "string \<rightharpoonup> pyfloat"
  data :: "string \<rightharpoonup> row list"

definition mtimes_get :: "service_state \<Rightarrow> string \<Rightarrow> pyfloat" where
  "mtimes_get s key = (case mtimes s key of None \<Rightarrow> - 1 | Some t \<Rightarrow> t)"

text \<open>One iteration of the loop of \<^verbatim>\<open>refresh_if_changed\<close>, on the state and the flag
  \<^verbatim>\<open>changed\<close>. The \<^verbatim>\<open>except\<close> branch only logs a warning.\<close>

definition refresh_one ::
  "world \<Rightarrow> bool \<Rightarrow> string \<times> path \<Rightarrow> service_state \<times> bool \<Rightarrow> service_state \<times> bool" where
  "refresh_one w force kp acc =
     (let key = fst kp; path = snd kp; s = fst acc; changed = snd acc
      in if \<not> path_exists w path
         then (s\<lparr>data := (data s)(key \<mapsto> [])\<rparr>, changed)
         else
           let m = st_mtime w path
           in if force \<or> m \<noteq> mtimes_get s key
              then (case load_csv_normalized w path key of
                      Inr rows \<Rightarrow>
                        (s\<lparr>data := (data s)(key \<mapsto> rows),
                           mtimes := (mtimes s)(key \<mapsto> m)\<rparr>, True)
                    | Inl e \<Rightarrow> (s, changed))
              else (s, changed))"

fun refresh_loop ::
  "world \<Rightarrow> bool \<Rightarrow> (string \<times> path) list \<Rightarrow> service_state \<times> bool \<Rightarrow> service_state \<times> bool" where
  "refresh_loop w force [] acc = acc"
| "refresh_loop w force (kp # kps) acc = refresh_loop w force kps (refresh_one w force kp acc)"

definition refresh_if_changed :: "world \<Rightarrow> bool \<Rightarrow> service_state \<Rightarrow> service_state \<times> bool" where
  "refresh_if_changed w force s = refresh_loop w force (files s) (s, False)"

text \<open>A service with two marketplaces: the file of the first exists but no longer loads,
  the file of the second is missing.\<close>

definition stale_row :: row where
  "stale_row = \<lparr> kategori = ascii ''Moda'', alt_kategori = ascii ''Ayakkabi'',
     urun_grubu = ascii ''Bot'', komisyon = Num 15 \<rparr>"

definition broken_world :: world where
  "broken_world =
     \<lparr> path_exists = (\<lambda>p. p = ''commissions_flat.csv''),
       st_mtime = (\<lambda>p. 7),
       load_csv_normalized = (\<lambda>p key. Inl ValueError) \<rparr>"

definition loaded_state :: service_state where
  "loaded_state =
     \<lparr> files = [(''trendyol'', ''commissions_flat.csv''), (''n11'', ''n11_commissions.csv'')],
       mtimes = [''trendyol'' \<mapsto> 3, ''n11'' \<mapsto> 3],
       data = [''trendyol'' \<mapsto> [stale_row], ''n11'' \<mapsto> [stale_row]] \<rparr>"

section \<open>Query engine: text folding\<close>

text \<open>
  \<^verbatim>\<open>str.lower()\<close> on the letters the datasets use: ASCII and Latin-1 capitals move to their
  small letters, the Turkish capitals G-breve and S-cedilla likewise, and the dotted
  capital I (U+0130) becomes \<open>i\<close> followed by the combining dot U+0307. The model
  leaves every other code point as it is; the capital letters of other scripts are
  outside it.
\<close>

definition lower_char :: "nat \<Rightarrow> ustr" where
  "lower_char c =
     (if 65 \<le> c \<and> c \<le> 90 then [c + 32]
      else if 192 \<le> c \<and> c \<le> 222 \<and> c \<noteq> 215 then [c + 32]
      else if c = 286 then [287]
      else if c = 350 then [351]
      else if c = 304 then [105, 775]
      else [c])"

definition py_lower :: "ustr \<Rightarrow> ustr" where
  "py_lower s = concat (map lower_char s)"

text \<open>\<^verbatim>\<open>str.replace(o, n)\<close> for one-character \<open>o\<close> and \<open>n\<close>, and the replacement table of
  \<^verbatim>\<open>_normalize_turkish\<close> in the order of the source.\<close>

definition replace_char :: "nat \<Rightarrow> nat \<Rightarrow> ustr \<Rightarrow> ustr" where
  "replace_char old new s = map (\<lambda>c. if c = old then new else c) s"

definition repl :: "(nat \<times> nat) list" where
  "repl = [(287, 103), (286, 71), (252, 117), (220, 85), (351, 115), (350, 83),
           (305, 105), (304, 73), (246, 111), (214, 79), (231, 99), (199, 67)]"

definition normalize_turkish :: "ustr \<Rightarrow> ustr" where
  "normalize_turkish text = foldl (\<lambda>t p. replace_char (fst p) (snd p) t) text repl"

text \<open>\<^verbatim>\<open>str.strip()\<close> removes the white space of Unicode at both ends.\<close>

definition is_space :: "nat \<Rightarrow> bool" where
  "is_space c \<longleftrightarrow>
     (9 \<le> c \<and> c \<le> 13) \<or> (28 \<le> c \<and> c \<le> 32) \<or> c = 133 \<or> c = 160 \<or> c = 5760
     \<or> (8192 \<le> c \<and> c \<le> 8202) \<or> c = 8232 \<or> c = 8233 \<or> c = 8239 \<or> c = 8287
     \<or> c = 12288"

definition py_strip :: "ustr \<Rightarrow> ustr" where
  "py_strip s = rev (dropWhile is_space (rev (dropWhile is_space s)))"

text \<open>\<^verbatim>\<open>q in s\<close> on strings: \<open>q\<close> occurs in \<open>s\<close> as a contiguous run.\<close>

fun py_in :: "ustr \<Rightarrow> ustr \<Rightarrow> bool" where
  "py_in q [] \<longleftrightarrow> q = []"
| "py_in q (c # cs) \<longleftrightarrow> take (length q) (c # cs) = q \<or> py_in q cs"

section \<open>Query engine: ranked search (\<^verbatim>\<open>search_products\<close>)\<close>

definition fold_query :: "ustr \<Rightarrow> ustr" where
  "fold_query query = py_strip (normalize_turkish (py_lower query))"

definition fold_field :: "ustr \<Rightarrow> ustr" where
  "fold_field v = normalize_turkish (py_lower v)"

text \<open>The local variables of the loop body: the three membership tests, the priority
  and the sort text. The separator is space, U+2192, space.\<close>

definition in_cat :: "ustr \<Rightarrow> row \<Rightarrow> bool" where
  "in_cat q r = py_in q (fold_field (kategori r))"

definition in_sub :: "ustr \<Rightarrow> row \<Rightarrow> bool" where
  "in_sub q r = py_in q (fold_field (alt_kategori r))"

definition in_grp :: "ustr \<Rightarrow> row \<Rightarrow> bool" where
  "in_grp q r = py_in q (fold_field (urun_grubu r))"

definition priority :: "ustr \<Rightarrow> row \<Rightarrow> nat" where
  "priority q r = (if in_cat q r then 0 else if in_sub q r then 1 else 2)"

definition arrow :: ustr where
  "arrow = [32, 8594, 32]"

definition path_text :: "row \<Rightarrow> ustr" where
  "path_text r = kategori r @ arrow @ alt_kategori r @ arrow @ urun_grubu r"

definition path_for_sort :: "row \<Rightarrow> ustr" where
  "path_for_sort r = py_lower (path_text r)"

fun ranked :: "ustr \<Rightarrow> row list \<Rightarrow> (nat \<times> ustr \<times> row) list" where
  "ranked q [] = []"
| "ranked q (r # rs) =
     (if \<not> (in_cat q r \<or> in_sub q r \<or> in_grp q r) then ranked q rs
      else (priority q r, path_for_sort r, r) # ranked q rs)"

definition search_products :: "row list \<Rightarrow> ustr \<Rightarrow> row list" where
  "search_products rows query =
     (let q = fold_query query
      in if q = [] then rows
         else map (\<lambda>item. snd (snd item))
                (sort_key (\<lambda>x. (fst x, fst (snd x))) (ranked q rows)))"

text \<open>Two rows that differ in the case of the first letter, and a row for a
  product-group match.\<close>

definition zebra_row :: row where
  "zebra_row = \<lparr> kategori = ascii ''Zebra'', alt_kategori = ascii ''Oyuncak'',
     urun_grubu = ascii ''Pelus'', komisyon = Num 12 \<rparr>"

definition apple_row :: row where
  "apple_row = \<lparr> kategori = ascii ''apple'', alt_kategori = ascii ''Oyuncak'',
     urun_grubu = ascii ''Pelus'', komisyon = Num 10 \<rparr>"

definition group_row :: row where
  "group_row = \<lparr> kategori = ascii ''Anne'', alt_kategori = ascii ''Oyuncak'',
     urun_grubu = ascii ''Zebra Figur'', komisyon = Num 8 \<rparr>"

section \<open>Query engine: commission per product group (\<^verbatim>\<open>list_pg_commissions\<close>)\<close>

text \<open>
  The value \<^verbatim>\<open>val\<close> of the loop is \<^verbatim>\<open>None\<close> or a float, and the float may be NaN:
  \<^verbatim>\<open>float(nan)\<close> does not raise. \<^verbatim>\<open>val or 0.0\<close> replaces \<^verbatim>\<open>None\<close> (and the falsy 0.0) by 0.0
  and keeps NaN, which is truthy; every comparison with NaN is false.
\<close>

datatype fval = F pyfloat | FNaN

definition cell_val :: "cell \<Rightarrow> fval option" where
  "cell_val c = (case c of Blank \<Rightarrow> None | Num x \<Rightarrow> Some (F x) | NaN \<Rightarrow> Some FNaN)"

definition or_zero :: "fval option \<Rightarrow> fval" where
  "or_zero v = (case v of None \<Rightarrow> F 0 | Some x \<Rightarrow> x)"

fun fgt :: "fval \<Rightarrow> fval \<Rightarrow> bool" where
  "fgt (F a) (F b) \<longleftrightarrow> b < a"
| "fgt _ _ \<longleftrightarrow> False"

text \<open>\<^verbatim>\<open>fmt\<close>: two decimals, the point replaced by a comma, and a percent sign.\<close>

fun digits_of :: "nat \<Rightarrow> ustr" where
  "digits_of n = (if n < 10 then [48 + n] else digits_of (n div 10) @ [48 + n mod 10])"

definition fmt :: "fval option \<Rightarrow> ustr" where
  "fmt val =
     (case val of
        None \<Rightarrow> []
      | Some FNaN \<Rightarrow> ascii ''nan%''
      | Some (F x) \<Rightarrow>
          (let n = nat (round_half_even (\<bar>x\<bar> * 100))
           in (if x < 0 then ascii ''-'' else []) @ digits_of (n div 100) @ ascii '',''
              @ [48 + (n mod 100) div 10, 48 + n mod 10] @ ascii ''%''))"

text \<open>An entry of the result, with the keys \<^verbatim>\<open>productGroup\<close>, \<^verbatim>\<open>commissionPercent\<close> and
  \<^verbatim>\<open>commissionText\<close>.\<close>

record pg_entry =
  entryProductGroup :: ustr
  entryCommissionPercent :: "fval option"
  entryCommissionText :: ustr

text \<open>The dictionary \<^verbatim>\<open>seen\<close> keeps insertion order, which the final stable sort reads: an
  association list, where assigning to a present key keeps its place.\<close>

definition pg_step :: "ustr \<Rightarrow> row \<Rightarrow> (ustr \<times> pg_entry) list \<Rightarrow> (ustr \<times> pg_entry) list" where
  "pg_step norm_q r seen =
     (let pg = py_strip (urun_grubu r)
      in if pg = [] then seen
         else if norm_q \<noteq> [] \<and> \<not> py_in norm_q (normalize_turkish (py_lower pg)) then seen
         else
           let val = cell_val (komisyon r); current = map_of seen pg
           in if current = None
                 \<or> fgt (or_zero val) (or_zero (entryCommissionPercent (the current)))
              then AList.update pg
                     \<lparr> entryProductGroup = pg, entryCommissionPercent = val, entryCommissionText = fmt val \<rparr>
                     seen
              else seen)"

fun pg_loop :: "ustr \<Rightarrow> row list \<Rightarrow> (ustr \<times> pg_entry) list \<Rightarrow> (ustr \<times> pg_entry) list" where
  "pg_loop norm_q [] seen = seen"
| "pg_loop norm_q (r # rs) seen = pg_loop norm_q rs (pg_step norm_q r seen)"

definition list_pg_commissions :: "row list \<Rightarrow> ustr \<Rightarrow> pg_entry list" where
  "list_pg_commissions rows q =
     (let norm_q = (if q \<noteq> [] then normalize_turkish (py_lower q) else [])
      in sort_key (\<lambda>x. py_lower (entryProductGroup x)) (map snd (pg_loop norm_q rows [])))"

text \<open>Rows of one product group under two sub-categories: with rates 10 and 15, and
  with a missing rate (NaN, as the loader leaves it) followed by 15.\<close>

definition pg_row :: "string \<Rightarrow> cell \<Rightarrow> row" where
  "pg_row sub c = \<lparr> kategori = ascii ''Elektronik'', alt_kategori = ascii sub,
     urun_grubu = ascii ''Kulaklik'', komisyon = c \<rparr>"

text \<open>
  Notions for stating what the loop keeps: the product group of a row, whether the row
  passes the two \<^verbatim>\<open>continue\<close> tests, the entry a row gives, the value the comparison uses
  for a row without NaN (a blank counts as 0), and the update the loop makes to the entry
  kept for a group.
\<close>

definition pg_of :: "row \<Rightarrow> ustr" where
  "pg_of r = py_strip (urun_grubu r)"

definition passes :: "ustr \<Rightarrow> row \<Rightarrow> bool" where
  "passes norm_q r \<longleftrightarrow>
     pg_of r \<noteq> [] \<and> (norm_q = [] \<or> py_in norm_q (normalize_turkish (py_lower (pg_of r))))"

definition entry_of :: "row \<Rightarrow> pg_entry" where
  "entry_of r =
     \<lparr> entryProductGroup = pg_of r, entryCommissionPercent = cell_val (komisyon r),
       entryCommissionText = fmt (cell_val (komisyon r)) \<rparr>"

definition effective :: "row \<Rightarrow> pyfloat" where
  "effective r = (case komisyon r of Num x \<Rightarrow> x | NaN \<Rightarrow> 0 | Blank \<Rightarrow> 0)"

definition keep :: "pg_entry option \<Rightarrow> row \<Rightarrow> pg_entry option" where
  "keep current r =
     (case current of
        None \<Rightarrow> Some (entry_of r)
      | Some c \<Rightarrow>
          if fgt (or_zero (cell_val (komisyon r))) (or_zero (entryCommissionPercent c))
          then Some (entry_of r) else Some c)"

section \<open>Column resolver and row normalizer (\<^verbatim>\<open>_normalize_to_flat4\<close>, \<^verbatim>\<open>_fix_scale\<close>)\<close>

text \<open>The column names of the source; four of them hold Turkish letters and are
  given by their code points.\<close>

definition col_ana_kategori :: ustr where "col_ana_kategori = ascii ''Ana Kategori''"
definition col_kategori :: ustr where "col_kategori = ascii ''Kategori''"
definition col_alt_kategori :: ustr where "col_alt_kategori = ascii ''Alt Kategori''"
definition col_urun_grubu :: ustr where
  "col_urun_grubu = [220, 114, 252, 110] @ ascii '' Grubu''"
definition col_urun_grubu_ascii :: ustr where "col_urun_grubu_ascii = ascii ''Urun Grubu''"
definition col_urun_grubu_snake :: ustr where "col_urun_grubu_snake = ascii ''Urun_Grubu''"
definition col_komisyon_kdv :: ustr where "col_komisyon_kdv = ascii ''Komisyon_%_KDV_Dahil''"
definition col_uygulanan :: ustr where
  "col_uygulanan = ascii ''Uygulanan_Komisyon_%_KDV_Dahil''"
definition col_komisyon_lower :: ustr where "col_komisyon_lower = ascii ''komisyon''"
definition col_komisyon :: ustr where "col_komisyon = ascii ''Komisyon''"
definition col_satis_komisyonu :: ustr where
  "col_satis_komisyonu = ascii ''Sat'' @ [305, 351] @ ascii '' Komisyonu (+KDV)''"
definition col_komisyon_orani :: ustr where
  "col_komisyon_orani = ascii ''Komisyon Oran'' @ [305]"
definition col_revize_orani :: ustr where
  "col_revize_orani = ascii ''Revize Komisyon Oran'' @ [305]"
definition col_komisyon_oranlari :: ustr where
  "col_komisyon_oranlari = ascii ''Komisyon Oranlar'' @ [305]"

text \<open>\<^verbatim>\<open>columns_candidates\<close> of the six marketplaces, as \<^verbatim>\<open>__init__\<close> sets them.\<close>

record candidates =
  category :: "ustr list"
  sub_category :: "ustr list"
  product_group :: "ustr list"
  commission :: "ustr list"

definition trendyol_candidates :: candidates where
  "trendyol_candidates =
     \<lparr> category = [col_ana_kategori, col_kategori],
       sub_category = [col_kategori, col_alt_kategori],
       product_group = [col_urun_grubu, col_urun_grubu_ascii, col_urun_grubu_snake],
       commission = [col_komisyon_kdv, col_komisyon_lower] \<rparr>"

definition hepsiburada_candidates :: candidates where
  "hepsiburada_candidates =
     \<lparr> category = [col_ana_kategori, col_kategori],
       sub_category = [col_kategori, col_alt_kategori],
       product_group = [col_urun_grubu, col_urun_grubu_ascii, col_urun_grubu_snake],
       commission = [col_komisyon_kdv, col_uygulanan, col_komisyon_lower] \<rparr>"

definition n11_candidates :: candidates where
  "n11_candidates =
     \<lparr> category = [col_kategori, col_ana_kategori],
       sub_category = [col_alt_kategori, col_kategori],
       product_group = [col_urun_grubu, col_urun_grubu_ascii, col_urun_grubu_snake],
       commission = [col_komisyon_kdv, col_komisyon_lower] \<rparr>"

definition amazon_candidates :: candidates where
  "amazon_candidates =
     \<lparr> category = [col_kategori],
       sub_category = [col_alt_kategori],
       product_group = [col_urun_grubu, col_kategori],
       commission = [col_komisyon_kdv, col_satis_komisyonu] \<rparr>"

definition ciceksepeti_candidates :: candidates where
  "ciceksepeti_candidates =
     \<lparr> category = [col_kategori, col_ana_kategori],
       sub_category = [col_alt_kategori, col_kategori],
       product_group = [col_urun_grubu, col_kategori],
       commission = [col_komisyon_kdv, col_komisyon_orani, col_revize_orani] \<rparr>"

definition pttavm_candidates :: candidates where
  "pttavm_candidates =
     \<lparr> category = [col_kategori, col_ana_kategori],
       sub_category = [col_alt_kategori],
       product_group = [col_urun_grubu, col_alt_kategori, col_kategori],
       commission = [col_komisyon_kdv, col_komisyon, col_komisyon_oranlari] \<rparr>"

text \<open>
  A raw table: its column names in order, and its records. A record gives, for a column,
  the text \<^verbatim>\<open>astype(str)\<close> makes of the cell; it is read at columns of the table only.
\<close>

record dataframe =
  columns :: "ustr list"
  records :: "(ustr \<Rightarrow> ustr) list"

fun pick_first_present :: "dataframe \<Rightarrow> ustr list \<Rightarrow> ustr option" where
  "pick_first_present df [] = None"
| "pick_first_present df (c # cs) =
     (if c \<in> set (columns df) then Some c else pick_first_present df cs)"

text \<open>\<^verbatim>\<open>... or ""\<close>: no column, or a column whose name is empty, gives the empty name.\<close>

definition or_empty :: "ustr option \<Rightarrow> ustr" where
  "or_empty c = (case c of None \<Rightarrow> [] | Some n \<Rightarrow> n)"

text \<open>
  \<^verbatim>\<open>_extract_number\<close>: strip, commas to points, then the first match of
  \<^verbatim>\<open>\d+(?:\.\d+)?\<close>: the first run of digits and, when a point and a digit follow it,
  the point and the next run of digits. Digits are the ASCII digits.
\<close>

definition is_digit :: "nat \<Rightarrow> bool" where
  "is_digit c \<longleftrightarrow> 48 \<le> c \<and> c \<le> 57"

definition digits_value :: "ustr \<Rightarrow> nat" where
  "digits_value ds = foldl (\<lambda>a c. 10 * a + (c - 48)) 0 ds"

definition extract_number :: "ustr \<Rightarrow> pyfloat option" where
  "extract_number x =
     (let s = replace_char 44 46 (py_strip x);
          t = dropWhile (\<lambda>c. \<not> is_digit c) s
      in if t = [] then None
         else
           let whole = takeWhile is_digit t; rest = dropWhile is_digit t
           in (case rest of
                 d # f # fs \<Rightarrow>
                   if d = 46 \<and> is_digit f
                   then (let frac = takeWhile is_digit (f # fs)
                         in Some (of_nat (digits_value whole)
                                  + of_nat (digits_value frac) / 10 ^ length frac))
                   else Some (of_nat (digits_value whole))
               | _ \<Rightarrow> Some (of_nat (digits_value whole))))"

text \<open>
  A numeric column after \<^verbatim>\<open>pd.to_numeric(..., errors="coerce")\<close>: \<open>None\<close> is a missing value.
  \<^verbatim>\<open>Series.quantile(0.95)\<close> skips missing values and interpolates linearly between the
  two order statistics around position \<open>(n - 1) * 0.95\<close>.
\<close>

definition non_missing :: "pyfloat option list \<Rightarrow> pyfloat list" where
  "non_missing ser = map the (filter (\<lambda>v. v \<noteq> None) ser)"

definition quantile95 :: "pyfloat list \<Rightarrow> pyfloat" where
  "quantile95 vs =
     (let s = sort vs; n = length s;
          h = of_nat (n - 1) * (19 / 20);
          lo = nat \<lfloor>h\<rfloor>; hi = min (lo + 1) (n - 1)
      in s ! lo + (h - of_nat lo) * (s ! hi - s ! lo))"

definition fix_scale :: "pyfloat option list \<Rightarrow> pyfloat option list" where
  "fix_scale ser =
     (if (if 0 < length (non_missing ser) then quantile95 (non_missing ser) \<le> 1 else False)
      then map (map_option (\<lambda>x. x * 100)) ser
      else ser)"

text \<open>\<^verbatim>\<open>drop_duplicates()\<close> keeps the first of equal rows.\<close>

definition drop_duplicates :: "'a list \<Rightarrow> 'a list" where
  "drop_duplicates xs = rev (remdups (rev xs))"

definition number_cell :: "pyfloat option \<Rightarrow> cell" where
  "number_cell v = (case v of None \<Rightarrow> NaN | Some x \<Rightarrow> Num x)"

text \<open>The rows \<^verbatim>\<open>_normalize_to_flat4\<close> builds from the bound columns, before the empty rows
  and the duplicates are dropped.\<close>

definition flat_rows ::
  "dataframe \<Rightarrow> ustr \<Rightarrow> ustr option \<Rightarrow> ustr \<Rightarrow> pyfloat option list \<Rightarrow> row list" where
  "flat_rows df kat_col alt_col grp_col vals =
     map (\<lambda>(r, v).
           \<lparr> kategori = py_strip (r kat_col),
             alt_kategori = (case alt_col of None \<Rightarrow> [] | Some c \<Rightarrow> py_strip (r c)),
             urun_grubu = py_strip (r grp_col),
             komisyon = number_cell v \<rparr>)
       (zip (records df) vals)"

definition normalize_to_flat4 :: "dataframe \<Rightarrow> candidates \<Rightarrow> py_error + row list" where
  "normalize_to_flat4 df cands =
     (let cat_col = or_empty (pick_first_present df (category cands));
          sub_col = or_empty (pick_first_present df (sub_category cands));
          grp_col = or_empty (pick_first_present df (product_group cands));
          com_col = or_empty (pick_first_present df (commission cands))
      in if grp_col = [] then Inl ValueError
         else if \<not> (cat_col \<noteq> [] \<or> sub_col \<noteq> []) then Inl ValueError
         else
           let vals = (if com_col \<noteq> []
                       then fix_scale (map (\<lambda>r. extract_number (r com_col)) (records df))
                       else replicate (length (records df)) None);
               out = (if cat_col \<noteq> [] \<and> sub_col \<noteq> [] \<and> cat_col \<noteq> sub_col
                      then flat_rows df cat_col (Some sub_col) grp_col vals
                      else flat_rows df (if cat_col \<noteq> [] then cat_col else sub_col) None
                             grp_col vals)
           in Inr (drop_duplicates
                     (filter (\<lambda>r. kategori r \<noteq> [] \<or> alt_kategori r \<noteq> [] \<or> urun_grubu r \<noteq> [])
                        out)))"

text \<open>A table in the shape of the Hepsiburada file: main category, category, product
  group and rate, with no sub-category column.\<close>

definition hb_record :: "ustr \<Rightarrow> ustr" where
  "hb_record c =
     (if c = col_ana_kategori then ascii ''Elektronik''
      else if c = col_kategori then ascii '' Telefon ''
      else if c = col_urun_grubu then ascii ''Kilif''
      else if c = col_komisyon_kdv then ascii ''%18,5''
      else ascii ''nan'')"

definition hb_table :: dataframe where
  "hb_table =
     \<lparr> columns = [col_ana_kategori, col_kategori, col_urun_grubu, col_komisyon_kdv],
       records = [hb_record] \<rparr>"



section \<open>VAT calculator: decimal arithmetic (\<^verbatim>\<open>calculators/kdv.py\<close>)\<close>

text \<open>
  A finite \<^verbatim>\<open>Decimal\<close> is modelled by its value, a rational; the special values
  Infinity and NaN and the exponent limits of the context are outside the model. The
  module sets the precision of the context to 28: the result of an addition, a
  subtraction, a multiplication or a division is the exact result rounded to 28
  significant digits, ties to even. \<open>adjusted x\<close> is the exponent of the leading digit of
  \<open>x\<close>.
\<close>

type_synonym decimal = rat

function digit_count :: "int \<Rightarrow> int" where
  "digit_count n = (if n < 10 then 1 else 1 + digit_count (n div 10))"
  by pat_completeness auto
termination
  by (relation "measure nat") auto

declare digit_count.simps [simp del]

definition adjusted :: "decimal \<Rightarrow> int" where
  "adjusted x =
     (let k = digit_count (fst (quotient_of \<bar>x\<bar>)) - digit_count (snd (quotient_of \<bar>x\<bar>))
      in if 10 powi k \<le> \<bar>x\<bar> then k else k - 1)"

definition prec :: int where
  "prec = 28"

definition ctx_round :: "decimal \<Rightarrow> decimal" where
  "ctx_round x =
     (if x = 0 then 0
      else let e = adjusted x - (prec - 1)
           in of_int (round_half_even (x / 10 powi e)) * 10 powi e)"

text \<open>
  \<^verbatim>\<open>_q2\<close>: \<^verbatim>\<open>quantize\<close> to two decimals, half-even for the modes \<^verbatim>\<open>even\<close> and \<^verbatim>\<open>half_even\<close>,
  half-up (ties away from zero) for every other mode. \<^verbatim>\<open>quantize\<close> raises
  \<open>InvalidOperation\<close> when the coefficient of the result has more digits than the
  precision.
\<close>

definition round_half_up :: "rat \<Rightarrow> int" where
  "round_half_up x = (if 0 \<le> x then \<lfloor>x + 1 / 2\<rfloor> else - \<lfloor>- x + 1 / 2\<rfloor>)"


text \<open>Sequencing of computations that may raise.\<close>

definition and_then :: "py_error + 'a \<Rightarrow> ('a \<Rightarrow> py_error + 'b) \<Rightarrow> py_error + 'b" where
  "and_then m f = (case m of Inl e \<Rightarrow> Inl e | Inr x \<Rightarrow> f x)"

text \<open>Division of decimals: a zero divisor signals \<open>DivisionByZero\<close>, and
  \<open>DivisionUndefined\<close> (an \<open>InvalidOperation\<close>) when the dividend is zero too.\<close>

definition ddiv :: "decimal \<Rightarrow> decimal \<Rightarrow> py_error + decimal" where
  "ddiv a b =
     (if b = 0 then (if a = 0 then Inl DivisionUndefined else Inl DivisionByZero)
      else Inr (ctx_round (a / b)))"


text \<open>
  \<^verbatim>\<open>Decimal(text)\<close> on a finite number in decimal notation: an optional sign, digits with an
  optional point (a digit on one side at least), and an optional exponent. Blanks,
  underscores, characters outside ASCII and the letters of the names of the special
  values can occur in texts the constructor accepts in other notations; a text with one
  of them is not interpreted by the model: \<open>Unmodelled\<close>. Every other text that does not
  follow the notation raises \<open>ConversionSyntax\<close>.
\<close>

definition notation_char :: "nat \<Rightarrow> bool" where
  "notation_char c \<longleftrightarrow> is_digit c \<or> c = 43 \<or> c = 45 \<or> c = 46 \<or> c = 101 \<or> c = 69"

definition other_notation_char :: "nat \<Rightarrow> bool" where
  "other_notation_char c \<longleftrightarrow>
     127 < c \<or> is_space c \<or> c = 95
     \<or> c \<in> set (ascii ''infatysINFATYS'')"

definition unsigned_part :: "ustr \<Rightarrow> (decimal \<times> ustr) option" where
  "unsigned_part s =
     (let whole = takeWhile is_digit s; r1 = dropWhile is_digit s;
          frac = (case r1 of c # t \<Rightarrow> if c = 46 then takeWhile is_digit t else [] | [] \<Rightarrow> []);
          r2 = (case r1 of c # t \<Rightarrow> if c = 46 then dropWhile is_digit t else r1 | [] \<Rightarrow> [])
      in if whole = [] \<and> frac = [] then None
         else Some (of_nat (digits_value whole) + of_nat (digits_value frac) / 10 ^ length frac,
                    r2))"

definition exponent_part :: "ustr \<Rightarrow> int option" where
  "exponent_part s =
     (case s of
        [] \<Rightarrow> Some 0
      | c # t \<Rightarrow>
          if c = 101 \<or> c = 69
          then (let neg = (case t of d # u \<Rightarrow> d = 45 | [] \<Rightarrow> False);
                    ds = (case t of d # u \<Rightarrow> if d = 43 \<or> d = 45 then u else t | [] \<Rightarrow> [])
                in if ds = [] \<or> \<not> list_all is_digit ds then None
                   else Some (if neg then - int (digits_value ds) else int (digits_value ds)))
          else None)"

definition decimal_of_str :: "ustr \<Rightarrow> py_error + decimal" where
  "decimal_of_str s =
     (if list_ex other_notation_char s then Inl Unmodelled
      else if \<not> list_all notation_char s then Inl ConversionSyntax
      else
        let neg = (case s of c # t \<Rightarrow> c = 45 | [] \<Rightarrow> False);
            body = (case s of c # t \<Rightarrow> if c = 43 \<or> c = 45 then t else s | [] \<Rightarrow> [])
        in (case unsigned_part body of
              None \<Rightarrow> Inl ConversionSyntax
            | Some (v, rest) \<Rightarrow>
                (case exponent_part rest of
                   None \<Rightarrow> Inl ConversionSyntax
                 | Some e \<Rightarrow> Inr ((if neg then - v else v) * 10 powi e))))"

text \<open>\<^verbatim>\<open>_parse_withholding\<close>, on \<^verbatim>\<open>None\<close> or the text \<^verbatim>\<open>str(w)\<close>. The slash is code point 47,
  the blank that \<^verbatim>\<open>replace(" ", "")\<close> removes is code point 32.\<close>

definition parse_withholding :: "ustr option \<Rightarrow> py_error + decimal" where
  "parse_withholding w =
     (case w of
        None \<Rightarrow> Inr 0
      | Some t \<Rightarrow>
          let s = filter (\<lambda>c. c \<noteq> 32) (py_strip t)
          in if 47 \<in> set s
             then
               let a = takeWhile (\<lambda>c. c \<noteq> 47) s; b = tl (dropWhile (\<lambda>c. c \<noteq> 47) s)
               in if b = ascii ''0'' then Inr 0
                  else and_then (decimal_of_str a) (\<lambda>da.
                       and_then (decimal_of_str b) (\<lambda>db.
                       and_then (ddiv da db) (\<lambda>q. Inr (min (max q 0) 1))))
             else
               and_then (decimal_of_str s) (\<lambda>val0.
                 let val1 = (if 1 < val0 then ctx_round (val0 / 100) else val0);
                     val2 = (if val1 < 0 then 0 else val1);
                     val3 = (if 1 < val2 then 1 else val2)
                 in Inr val3))"





section \<open>VAT endpoint (\<^verbatim>\<open>calculators/api.py\<close>)\<close>









chapter \<open>Properties\<close>

section \<open>Commission and profit calculation\<close>

lemma bnd_ret: "bnd (ret x) f = f x"
  by (auto simp: bnd_def ret_def split: sum.splits)

lemma bnd_Inr:
  "bnd (Inr (x, ds)) f =
     (case f x of Inl e \<Rightarrow> Inl e | Inr (y, ds') \<Rightarrow> Inr (y, ds @ ds'))"
  by (simp add: bnd_def)

lemma bnd_fdiv:
  "b \<noteq> 0 \<Longrightarrow> bnd (fdiv a b) f =
     (case f (a / b) of Inl e \<Rightarrow> Inl e | Inr (y, ds) \<Rightarrow> Inr (y, b # ds))"
  by (auto simp: bnd_def fdiv_def split: sum.splits)

lemma extract_vat_share_pos:
  "0 < v \<Longrightarrow> extract_vat_share g v = Inr (g * (v / (100 + v)), [100 + v])"
  by (simp add: extract_vat_share_def bnd_fdiv ret_def)

lemma extract_vat_share_nonpos: "v \<le> 0 \<Longrightarrow> extract_vat_share g v = Inr (0, [])"
  by (simp add: extract_vat_share_def ret_def)

text \<open>What a run with a positive sale price returns, and which divisions it evaluates.\<close>

lemma calculate_commission_run:
  assumes "0 < salePrice ps"
  shows "\<exists>r. calculate_commission mp ps =
      Inr (r, [100, 100, 100, salePrice ps] @
              (if 0 < vatPercent ps then replicate 5 (100 + vatPercent ps) else []))
    \<and> commissionAmount r = py_round2 (salePrice ps * commissionPercent ps / 100)
    \<and> serviceAmount r = py_round2 (salePrice ps * servicePercent ps / 100)
    \<and> exportAmount r = py_round2 (salePrice ps * exportPercent ps / 100)
    \<and> payout r = py_round2 (salePrice ps -
         (salePrice ps * commissionPercent ps / 100 + salePrice ps * servicePercent ps / 100
          + salePrice ps * exportPercent ps / 100 + cargoPrice ps))
    \<and> netProfit r = py_round2 (salePrice ps -
         (salePrice ps * commissionPercent ps / 100 + salePrice ps * servicePercent ps / 100
          + salePrice ps * exportPercent ps / 100 + cargoPrice ps) - buyPrice ps)
    \<and> profitMargin r = py_round2 ((salePrice ps -
         (salePrice ps * commissionPercent ps / 100 + salePrice ps * servicePercent ps / 100
          + salePrice ps * exportPercent ps / 100 + cargoPrice ps) - buyPrice ps)
          / salePrice ps * 100)"
proof (cases "0 < vatPercent ps")
  case True
  with assms show ?thesis
    by (simp add: calculate_commission_def Let_def bnd_fdiv bnd_ret bnd_Inr
        extract_vat_share_pos ret_def eval_nat_numeral)
next
  case False
  with assms show ?thesis
    by (simp add: calculate_commission_def Let_def bnd_fdiv bnd_ret bnd_Inr
        extract_vat_share_nonpos ret_def)
qed





text \<open>
  Claim C10. For every VAT percent not above 0, also for -100 where the divisor
  \<open>100 + vatPercent\<close> would be zero, the VAT-share helper returns 0 and evaluates no
  division. For every input with a positive sale price the calculation returns a result,
  so no division by zero is raised; the divisors it evaluates are the constant 100 (three
  times), the sale price, and \<open>100 + vatPercent\<close> (five times) only when the VAT percent
  is positive; none of them is zero.
\<close>

theorem calculate_commission_no_zero_division:
  "(v \<le> 0 \<longrightarrow> extract_vat_share g v = Inr (0, []))
   \<and> (0 < salePrice ps \<longrightarrow>
        (\<exists>r. calculate_commission mp ps =
            Inr (r, [100, 100, 100, salePrice ps] @
                    (if 0 < vatPercent ps then replicate 5 (100 + vatPercent ps) else [])))
        \<and> 0 \<notin> set (divisors_of (calculate_commission mp ps)))"
proof (intro conjI impI)
  assume "v \<le> 0"
  then show "extract_vat_share g v = Inr (0, [])"
    by (rule extract_vat_share_nonpos)
next
  assume pos: "0 < salePrice ps"
  from calculate_commission_run [OF pos, of mp]
  show "\<exists>r. calculate_commission mp ps =
      Inr (r, [100, 100, 100, salePrice ps] @
              (if 0 < vatPercent ps then replicate 5 (100 + vatPercent ps) else []))"
    by blast
next
  assume pos: "0 < salePrice ps"
  from calculate_commission_run [OF pos, of mp]
  obtain r where "calculate_commission mp ps =
      Inr (r, [100, 100, 100, salePrice ps] @
              (if 0 < vatPercent ps then replicate 5 (100 + vatPercent ps) else []))"
    by blast
  with pos show "0 \<notin> set (divisors_of (calculate_commission mp ps))"
    by (auto simp: divisors_of_def)
qed

theorem calculate_commission_no_zero_division_witness:
  "(-100 :: rat) \<le> 0 \<and> extract_vat_share 5 (-100) = Inr (0, [])
   \<and> 0 < salePrice example_params
   \<and> (\<exists>r. calculate_commission ''n11'' example_params =
         Inr (r, [100, 100, 100, 200, 120, 120, 120, 120, 120]))
   \<and> 0 \<notin> set (divisors_of (calculate_commission ''n11'' example_params))"
proof -
  have h1: "(-100 :: rat) \<le> 0" by simp
  have h2: "0 < salePrice example_params" by (simp add: example_params_def)
  from calculate_commission_no_zero_division [of "-100" 5 example_params "''n11''"] h1 h2
  show ?thesis
    by (simp add: example_params_def eval_nat_numeral)
qed

section \<open>Dataset cache and hot reload\<close>

lemma refresh_one_other:
  "fst kp \<noteq> k \<Longrightarrow> data (fst (refresh_one w force kp acc)) k = data (fst acc) k
     \<and> mtimes (fst (refresh_one w force kp acc)) k = mtimes (fst acc) k"
  by (auto simp: refresh_one_def Let_def split: sum.splits)

lemma refresh_loop_other:
  "k \<notin> fst ` set kps \<Longrightarrow> data (fst (refresh_loop w force kps acc)) k = data (fst acc) k
     \<and> mtimes (fst (refresh_loop w force kps acc)) k = mtimes (fst acc) k"
proof (induction kps arbitrary: acc)
  case Nil
  then show ?case by simp
next
  case (Cons kp kps)
  then have "fst kp \<noteq> k" "k \<notin> fst ` set kps" by auto
  with Cons.IH [of "refresh_one w force kp acc"] refresh_one_other [of kp k w force acc]
  show ?case by simp
qed

text \<open>With distinct keys, what the loop leaves for a key is what its own iteration leaves,
  run from a state that still has the entries the key had at the start.\<close>

lemma refresh_loop_at:
  assumes "distinct (map fst kps)" "(k, p) \<in> set kps"
  shows "\<exists>acc'. data (fst acc') k = data (fst acc) k \<and> mtimes (fst acc') k = mtimes (fst acc) k
     \<and> data (fst (refresh_loop w force kps acc)) k
         = data (fst (refresh_one w force (k, p) acc')) k
     \<and> mtimes (fst (refresh_loop w force kps acc)) k
         = mtimes (fst (refresh_one w force (k, p) acc')) k"
  using assms
proof (induction kps arbitrary: acc)
  case Nil
  then show ?case by simp
next
  case (Cons kp kps)
  show ?case
  proof (cases "kp = (k, p)")
    case True
    with Cons.prems have "k \<notin> fst ` set kps" by auto
    from refresh_loop_other [OF this, of w force "refresh_one w force (k, p) acc"] True
    show ?thesis by (intro exI [of _ acc]) simp
  next
    case False
    with Cons.prems have in_rest: "(k, p) \<in> set kps" and d: "distinct (map fst kps)" by auto
    with Cons.prems have "fst kp \<noteq> k" by (cases kp) force
    from refresh_one_other [OF this, of w force acc]
      Cons.IH [OF d in_rest, of "refresh_one w force kp acc"]
    show ?thesis by auto
  qed
qed

lemma refresh_one_failed:
  "path_exists w p \<Longrightarrow> load_csv_normalized w p k = Inl e \<Longrightarrow>
     data (fst (refresh_one w force (k, p) acc)) k = data (fst acc) k
   \<and> mtimes (fst (refresh_one w force (k, p) acc)) k = mtimes (fst acc) k"
  by (auto simp: refresh_one_def Let_def)

lemma refresh_one_missing:
  "\<not> path_exists w p \<Longrightarrow> data (fst (refresh_one w force (k, p) acc)) k = Some []"
  by (auto simp: refresh_one_def Let_def)

text \<open>
  Claim C3. For every marketplace \<open>k\<close> registered with file \<open>p\<close> (the keys of a dictionary
  are distinct): if the file exists and loading it raises, \<open>refresh_if_changed\<close> leaves the
  row list and the recorded modification time of \<open>k\<close> as they were, forced or not; if the
  file does not exist, the row list of \<open>k\<close> is the empty list afterwards. The refresh
  itself always returns.
\<close>

theorem refresh_keeps_stale_snapshot:
  assumes "distinct (map fst (files s))" and "(k, p) \<in> set (files s)"
  shows "(path_exists w p \<and> load_csv_normalized w p k = Inl e \<longrightarrow>
            data (fst (refresh_if_changed w force s)) k = data s k
          \<and> mtimes (fst (refresh_if_changed w force s)) k = mtimes s k)
       \<and> (\<not> path_exists w p \<longrightarrow> data (fst (refresh_if_changed w force s)) k = Some [])"
proof -
  from refresh_loop_at [OF assms, of "(s, False)" w force]
  obtain acc' where a: "data (fst acc') k = data s k" "mtimes (fst acc') k = mtimes s k"
    and b: "data (fst (refresh_if_changed w force s)) k
              = data (fst (refresh_one w force (k, p) acc')) k"
      "mtimes (fst (refresh_if_changed w force s)) k
         = mtimes (fst (refresh_one w force (k, p) acc')) k"
    by (auto simp: refresh_if_changed_def)
  show ?thesis
    using a b refresh_one_failed [of w p k e force acc'] refresh_one_missing [of w p force k acc']
    by auto
qed

theorem refresh_keeps_stale_snapshot_witness:
  "distinct (map fst (files loaded_state))
   \<and> (''trendyol'', ''commissions_flat.csv'') \<in> set (files loaded_state)
   \<and> (''n11'', ''n11_commissions.csv'') \<in> set (files loaded_state)
   \<and> path_exists broken_world ''commissions_flat.csv''
   \<and> load_csv_normalized broken_world ''commissions_flat.csv'' ''trendyol'' = Inl ValueError
   \<and> data (fst (refresh_if_changed broken_world True loaded_state)) ''trendyol''
       = Some [stale_row]
   \<and> mtimes (fst (refresh_if_changed broken_world True loaded_state)) ''trendyol'' = Some 3
   \<and> \<not> path_exists broken_world ''n11_commissions.csv''
   \<and> data (fst (refresh_if_changed broken_world True loaded_state)) ''n11'' = Some []"
proof -
  have d: "distinct (map fst (files loaded_state))"
    by (simp add: loaded_state_def)
  have m1: "(''trendyol'', ''commissions_flat.csv'') \<in> set (files loaded_state)"
    and m2: "(''n11'', ''n11_commissions.csv'') \<in> set (files loaded_state)"
    by (simp_all add: loaded_state_def)
  from refresh_keeps_stale_snapshot [OF d m1, of broken_world ValueError True]
    refresh_keeps_stale_snapshot [OF d m2, of broken_world ValueError True] d m1 m2
  show ?thesis
    by (simp add: broken_world_def loaded_state_def)
qed

section \<open>Query engine: ranked search\<close>

lemma ranked_eq:
  "ranked q rows = map (\<lambda>r. (priority q r, path_for_sort r, r))
      (filter (\<lambda>r. in_cat q r \<or> in_sub q r \<or> in_grp q r) rows)"
  by (induction rows) auto

lemma insort_key_map:
  "insort_key f (g x) (map g xs) = map g (insort_key (\<lambda>y. f (g y)) x xs)"
  by (induction xs) auto

lemma sort_key_map: "sort_key f (map g xs) = map g (sort_key (\<lambda>y. f (g y)) xs)"
  by (induction xs) (auto simp: insort_key_map)

text \<open>The search of a query with a non-empty folded form is the stable sort of the
  matching rows by priority and lowered path.\<close>

lemma search_products_sort:
  "fold_query query \<noteq> [] \<Longrightarrow>
     search_products rows query =
       sort_key (\<lambda>r. (priority (fold_query query) r, path_for_sort r))
         (filter (\<lambda>r. in_cat (fold_query query) r \<or> in_sub (fold_query query) r
                      \<or> in_grp (fold_query query) r) rows)"
  by (simp add: search_products_def Let_def ranked_eq sort_key_map o_def)

lemma sorted_wrt_rank:
  "sorted (map (\<lambda>r. (priority q r, path_for_sort r)) xs) =
     sorted_wrt (\<lambda>a b. priority q a < priority q b
        \<or> (priority q a = priority q b \<and> path_for_sort a \<le> path_for_sort b)) xs"
proof -
  have "(\<lambda>a b. (priority q a, path_for_sort a) \<le> (priority q b, path_for_sort b))
      = (\<lambda>a b. priority q a < priority q b
        \<or> (priority q a = priority q b \<and> path_for_sort a \<le> path_for_sort b))"
    by (auto simp: less_eq_prod_def fun_eq_iff)
  then show ?thesis
    by (simp add: sorted_map)
qed

text \<open>
  Claim C4, as the code has it. The folded query is the query lowered, folded through the
  Turkish replacement table and stripped. When it is empty (an empty or all-blank query)
  the search returns all rows in their original order. Otherwise the result holds exactly
  the rows one of whose folded fields contains the folded query (as a multiset), ordered by
  priority (0 for a category match, 1 for a sub-category match without a category match, 2
  for a product-group match only) and, within a priority, by the lowered path text; rows
  with the same priority and the same lowered path keep their original order.
\<close>

theorem search_products_ranked:
  "(fold_query query = [] \<longrightarrow> search_products rows query = rows)
   \<and> (fold_query query \<noteq> [] \<longrightarrow>
        mset (search_products rows query)
          = mset (filter (\<lambda>r. in_cat (fold_query query) r \<or> in_sub (fold_query query) r
                              \<or> in_grp (fold_query query) r) rows)
      \<and> sorted_wrt (\<lambda>a b. priority (fold_query query) a < priority (fold_query query) b
            \<or> (priority (fold_query query) a = priority (fold_query query) b
                \<and> path_for_sort a \<le> path_for_sort b))
          (search_products rows query)
      \<and> (\<forall>p t. filter (\<lambda>r. priority (fold_query query) r = p \<and> path_for_sort r = t)
                  (search_products rows query)
              = filter (\<lambda>r. priority (fold_query query) r = p \<and> path_for_sort r = t)
                  (filter (\<lambda>r. in_cat (fold_query query) r \<or> in_sub (fold_query query) r
                              \<or> in_grp (fold_query query) r) rows)))"
proof (intro conjI impI allI)
  assume "fold_query query = []"
  then show "search_products rows query = rows"
    by (simp add: search_products_def)
next
  assume "fold_query query \<noteq> []"
  then show "mset (search_products rows query)
      = mset (filter (\<lambda>r. in_cat (fold_query query) r \<or> in_sub (fold_query query) r
                          \<or> in_grp (fold_query query) r) rows)"
    by (simp add: search_products_sort)
next
  assume ne: "fold_query query \<noteq> []"
  have "sorted (map (\<lambda>r. (priority (fold_query query) r, path_for_sort r))
          (search_products rows query))"
    unfolding search_products_sort [OF ne] by (rule sorted_sort_key)
  then show "sorted_wrt (\<lambda>a b. priority (fold_query query) a < priority (fold_query query) b
            \<or> (priority (fold_query query) a = priority (fold_query query) b
                \<and> path_for_sort a \<le> path_for_sort b))
          (search_products rows query)"
    by (simp only: sorted_wrt_rank)
next
  fix p t
  assume ne: "fold_query query \<noteq> []"
  have "(\<lambda>r. priority (fold_query query) r = p \<and> path_for_sort r = t)
      = (\<lambda>r. (priority (fold_query query) r, path_for_sort r) = (p, t))"
    by auto
  then show "filter (\<lambda>r. priority (fold_query query) r = p \<and> path_for_sort r = t)
                  (search_products rows query)
              = filter (\<lambda>r. priority (fold_query query) r = p \<and> path_for_sort r = t)
                  (filter (\<lambda>r. in_cat (fold_query query) r \<or> in_sub (fold_query query) r
                              \<or> in_grp (fold_query query) r) rows)"
    unfolding search_products_sort [OF ne] by (simp only: sort_key_stable)
qed


lemma ascii_simps: "ascii [] = []" "ascii (c # cs) = of_char c # ascii cs"
  by (simp_all add: ascii_def)

lemmas fold_simps = fold_query_def fold_field_def py_lower_def lower_char_def
  normalize_turkish_def repl_def replace_char_def py_strip_def is_space_def in_cat_def
  in_sub_def in_grp_def priority_def path_for_sort_def path_text_def arrow_def ascii_simps

theorem search_products_ranked_witness:
  "fold_query (ascii '' '') = []
   \<and> search_products [apple_row, group_row] (ascii '' '') = [apple_row, group_row]
   \<and> fold_query (ascii ''ZEB'') \<noteq> []
   \<and> mset (search_products [group_row, zebra_row, apple_row] (ascii ''ZEB''))
       = mset [group_row, zebra_row]
   \<and> sorted_wrt (\<lambda>a b. priority (ascii ''zeb'') a < priority (ascii ''zeb'') b
            \<or> (priority (ascii ''zeb'') a = priority (ascii ''zeb'') b
                \<and> path_for_sort a \<le> path_for_sort b))
          (search_products [group_row, zebra_row, apple_row] (ascii ''ZEB''))"
proof -
  have h1: "fold_query (ascii '' '') = []"
    by (simp add: fold_simps)
  have h2: "fold_query (ascii ''ZEB'') = ascii ''zeb''"
    by (simp add: fold_simps)
  have h3: "fold_query (ascii ''ZEB'') \<noteq> []"
    by (simp add: fold_simps)
  have "in_cat (ascii ''zeb'') zebra_row" "in_grp (ascii ''zeb'') group_row"
    "\<not> in_cat (ascii ''zeb'') apple_row" "\<not> in_sub (ascii ''zeb'') apple_row"
    "\<not> in_grp (ascii ''zeb'') apple_row"
    by (simp_all add: group_row_def zebra_row_def apple_row_def fold_simps)
  then have m: "filter (\<lambda>r. in_cat (ascii ''zeb'') r \<or> in_sub (ascii ''zeb'') r
              \<or> in_grp (ascii ''zeb'') r) [group_row, zebra_row, apple_row]
        = [group_row, zebra_row]"
    by simp
  note blank = search_products_ranked [of "ascii '' ''" "[apple_row, group_row]",
      THEN conjunct1, THEN mp, OF h1]
  note ranked = search_products_ranked [of "ascii ''ZEB''" "[group_row, zebra_row, apple_row]",
      THEN conjunct2, THEN mp, OF h3]
  have a: "mset (search_products [group_row, zebra_row, apple_row] (ascii ''ZEB''))
       = mset [group_row, zebra_row]"
    using ranked [THEN conjunct1] by (simp only: h2 m)
  have b: "sorted_wrt (\<lambda>a b. priority (ascii ''zeb'') a < priority (ascii ''zeb'') b
            \<or> (priority (ascii ''zeb'') a = priority (ascii ''zeb'') b
                \<and> path_for_sort a \<le> path_for_sort b))
          (search_products [group_row, zebra_row, apple_row] (ascii ''ZEB''))"
    using ranked [THEN conjunct2, THEN conjunct1] by (simp only: h2)
  from h1 blank h3 a b show ?thesis
    by (intro conjI)
qed

text \<open>
  Claim C4 as stated fails in two places. The tie within a rank is broken on the lowered
  path, not on the path as displayed: for the query \<open>e\<close> both rows match in the category,
  the path of the \<open>Zebra\<close> row is lexicographically below that of the \<open>apple\<close> row (capital
  letters come first), and the search returns the \<open>apple\<close> row first. And a non-empty
  query of blanks returns all rows in their original order, although only one of the two
  rows contains a blank and the other order is the ranked one.
\<close>

theorem search_products_displayed_path_counterexample:
  "fold_query (ascii ''e'') \<noteq> []
   \<and> priority (fold_query (ascii ''e'')) zebra_row = 0
   \<and> priority (fold_query (ascii ''e'')) apple_row = 0
   \<and> path_text zebra_row < path_text apple_row
   \<and> search_products [zebra_row, apple_row] (ascii ''e'') = [apple_row, zebra_row]
   \<and> ascii '' '' \<noteq> []
   \<and> path_text group_row < path_text apple_row
   \<and> path_for_sort group_row < path_for_sort apple_row
   \<and> \<not> py_in (ascii '' '') (fold_field (kategori apple_row))
   \<and> \<not> py_in (ascii '' '') (fold_field (alt_kategori apple_row))
   \<and> \<not> py_in (ascii '' '') (fold_field (urun_grubu apple_row))
   \<and> search_products [apple_row, group_row] (ascii '' '') = [apple_row, group_row]"
  by (simp add: search_products_def zebra_row_def apple_row_def group_row_def fold_simps
      Let_def less_eq_prod_def)

section \<open>Query engine: commission per product group\<close>

lemmas pg_simps = list_pg_commissions_def pg_step_def pg_row_def cell_val_def or_zero_def
  fmt_def py_strip_def is_space_def py_lower_def lower_char_def ascii_simps Let_def
  round_half_even_def

text \<open>On rows without NaN the loop does keep, for each group, the first row with the
  greatest value, a blank counting as 0.\<close>

lemma pg_step_keep:
  "map_of (pg_step norm_q r seen) g =
     (if passes norm_q r \<and> pg_of r = g then keep (map_of seen g) r else map_of seen g)"
  by (auto simp: pg_step_def passes_def pg_of_def keep_def entry_of_def Let_def update_conv'
      split: option.splits)

lemma pg_loop_keep:
  "map_of (pg_loop norm_q rows seen) g =
     foldl keep (map_of seen g) (filter (\<lambda>r. passes norm_q r \<and> pg_of r = g) rows)"
  by (induction rows arbitrary: seen) (simp_all add: pg_step_keep)

lemma pg_step_distinct:
  "distinct (map fst seen) \<Longrightarrow> distinct (map fst (pg_step norm_q r seen))"
  by (simp add: pg_step_def Let_def distinct_update)

lemma pg_loop_distinct:
  "distinct (map fst seen) \<Longrightarrow> distinct (map fst (pg_loop norm_q rows seen))"
  by (induction rows arbitrary: seen) (simp_all add: pg_step_distinct)

lemma keep_not_None: "keep current r \<noteq> None"
  by (simp add: keep_def split: option.splits)

lemma foldl_keep_None: "foldl keep current rs = None \<longleftrightarrow> current = None \<and> rs = []"
  by (induction rs arbitrary: current) (auto simp: keep_not_None)

lemma or_zero_effective:
  "komisyon r \<noteq> NaN \<Longrightarrow> or_zero (cell_val (komisyon r)) = F (effective r)"
  by (cases "komisyon r") (simp_all add: or_zero_def cell_val_def effective_def)

lemma or_zero_entry:
  "komisyon r \<noteq> NaN \<Longrightarrow> or_zero (entryCommissionPercent (entry_of r)) = F (effective r)"
  by (simp add: entry_of_def or_zero_effective)

lemma foldl_keep_first_maximum:
  assumes "\<forall>r \<in> set rs. komisyon r \<noteq> NaN" and "rs \<noteq> []"
  shows "\<exists>pre r post. rs = pre @ r # post
           \<and> (\<forall>x \<in> set pre. effective x < effective r)
           \<and> (\<forall>x \<in> set post. effective x \<le> effective r)
           \<and> foldl keep None rs = Some (entry_of r)"
  using assms
proof (induction rs rule: rev_induct)
  case Nil
  then show ?case by simp
next
  case (snoc x xs)
  show ?case
  proof (cases "xs = []")
    case True
    have "[x] = [] @ x # []" by simp
    then show ?thesis
      unfolding True by (intro exI [of _ "[]"] exI [of _ x]) (simp add: keep_def)
  next
    case False
    from snoc.prems have nn: "\<forall>r \<in> set xs. komisyon r \<noteq> NaN" and nx: "komisyon x \<noteq> NaN"
      by simp_all
    from snoc.IH [OF nn False] obtain pre r post where
      xs: "xs = pre @ r # post"
      and lt: "\<forall>y \<in> set pre. effective y < effective r"
      and le: "\<forall>y \<in> set post. effective y \<le> effective r"
      and kept: "foldl keep None xs = Some (entry_of r)"
      by blast
    from xs nn have nr: "komisyon r \<noteq> NaN" by simp
    show ?thesis
    proof (cases "effective r < effective x")
      case True
      then have "foldl keep None (xs @ [x]) = Some (entry_of x)"
        by (simp add: kept keep_def or_zero_effective [OF nx] or_zero_entry [OF nr])
      moreover from True lt le xs have "\<forall>y \<in> set xs. effective y < effective x"
        by fastforce
      ultimately show ?thesis
        by (intro exI [of _ xs] exI [of _ x] exI [of _ "[]"]) simp
    next
      case no: False
      then have "foldl keep None (xs @ [x]) = Some (entry_of r)"
        by (simp add: kept keep_def or_zero_effective [OF nx] or_zero_entry [OF nr])
      moreover from no le have "\<forall>y \<in> set (post @ [x]). effective y \<le> effective r"
        by auto
      ultimately show ?thesis
        using xs lt by (intro exI [of _ pre] exI [of _ r] exI [of _ "post @ [x]"]) simp
    qed
  qed
qed

lemma list_pg_commissions_maximum:
  assumes "\<forall>r \<in> set rows. komisyon r \<noteq> NaN"
    and "norm_q = (if q \<noteq> [] then normalize_turkish (py_lower q) else [])"
  shows "sorted (map (\<lambda>e. py_lower (entryProductGroup e)) (list_pg_commissions rows q))"
    and "distinct (map entryProductGroup (list_pg_commissions rows q))"
    and "entryProductGroup ` set (list_pg_commissions rows q)
           = pg_of ` {r \<in> set rows. passes norm_q r}"
    and "\<forall>e \<in> set (list_pg_commissions rows q). \<exists>pre r post.
           filter (\<lambda>x. passes norm_q x \<and> pg_of x = entryProductGroup e) rows = pre @ r # post
           \<and> (\<forall>x \<in> set pre. effective x < effective r)
           \<and> (\<forall>x \<in> set post. effective x \<le> effective r)
           \<and> e = entry_of r"
proof -
  define seen where "seen = pg_loop norm_q rows []"
  have res: "list_pg_commissions rows q
      = sort_key (\<lambda>x. py_lower (entryProductGroup x)) (map snd seen)"
    by (simp add: list_pg_commissions_def seen_def assms(2))
  have d: "distinct (map fst seen)"
    unfolding seen_def by (rule pg_loop_distinct) simp
  have look: "map_of seen g
      = foldl keep None (filter (\<lambda>r. passes norm_q r \<and> pg_of r = g) rows)" for g
    unfolding seen_def by (simp add: pg_loop_keep)
  have item: "\<exists>pre r post.
        filter (\<lambda>x. passes norm_q x \<and> pg_of x = g) rows = pre @ r # post
      \<and> (\<forall>x \<in> set pre. effective x < effective r)
      \<and> (\<forall>x \<in> set post. effective x \<le> effective r)
      \<and> e = entry_of r \<and> entryProductGroup e = g" if "(g, e) \<in> set seen" for g e
  proof -
    let ?rs = "filter (\<lambda>x. passes norm_q x \<and> pg_of x = g) rows"
    from that d have m: "map_of seen g = Some e" by simp
    then have "?rs \<noteq> []"
      unfolding look by (auto simp: foldl_keep_None)
    moreover have "\<forall>r \<in> set ?rs. komisyon r \<noteq> NaN"
      using assms(1) by simp
    ultimately obtain pre r post where
      split: "?rs = pre @ r # post"
      and lt: "\<forall>x \<in> set pre. effective x < effective r"
      and le: "\<forall>x \<in> set post. effective x \<le> effective r"
      and kept: "foldl keep None ?rs = Some (entry_of r)"
      using foldl_keep_first_maximum [of ?rs] by blast
    from kept m have e: "e = entry_of r"
      unfolding look by simp
    have "r \<in> set ?rs" by (simp add: split)
    then have "pg_of r = g" by simp
    then have "entryProductGroup e = g" by (simp add: e entry_of_def)
    with split lt le e show ?thesis by blast
  qed
  have key: "entryProductGroup e = g" if "(g, e) \<in> set seen" for g e
    using item [OF that] by blast
  have keys: "map entryProductGroup (map snd seen) = map fst seen"
    by (auto simp: key)
  show "sorted (map (\<lambda>e. py_lower (entryProductGroup e)) (list_pg_commissions rows q))"
    unfolding res by (rule sorted_sort_key)
  have "mset (map entryProductGroup (list_pg_commissions rows q))
      = mset (map fst seen)"
    unfolding res keys [symmetric] by (simp del: map_map)
  then show "distinct (map entryProductGroup (list_pg_commissions rows q))"
    using d by (metis mset_eq_imp_distinct_iff)
  have "fst ` set seen = pg_of ` {r \<in> set rows. passes norm_q r}"
  proof (intro set_eqI iffI)
    fix g assume "g \<in> fst ` set seen"
    then obtain e where "(g, e) \<in> set seen" by auto
    from item [OF this] obtain pre r post where
      "filter (\<lambda>x. passes norm_q x \<and> pg_of x = g) rows = pre @ r # post"
      by blast
    then have "r \<in> set (filter (\<lambda>x. passes norm_q x \<and> pg_of x = g) rows)"
      by simp
    then show "g \<in> pg_of ` {r \<in> set rows. passes norm_q r}" by auto
  next
    fix g assume "g \<in> pg_of ` {r \<in> set rows. passes norm_q r}"
    then have "filter (\<lambda>r. passes norm_q r \<and> pg_of r = g) rows \<noteq> []"
      by (auto simp: filter_empty_conv)
    then have "map_of seen g \<noteq> None"
      unfolding look by (simp add: foldl_keep_None)
    then show "g \<in> fst ` set seen"
      by (simp add: map_of_eq_None_iff)
  qed
  moreover have "entryProductGroup ` set (list_pg_commissions rows q) = fst ` set seen"
    using keys unfolding res by (metis list.set_map set_sort)
  ultimately show "entryProductGroup ` set (list_pg_commissions rows q)
           = pg_of ` {r \<in> set rows. passes norm_q r}"
    by simp
  show "\<forall>e \<in> set (list_pg_commissions rows q). \<exists>pre r post.
           filter (\<lambda>x. passes norm_q x \<and> pg_of x = entryProductGroup e) rows = pre @ r # post
           \<and> (\<forall>x \<in> set pre. effective x < effective r)
           \<and> (\<forall>x \<in> set post. effective x \<le> effective r)
           \<and> e = entry_of r"
  proof
    fix e assume "e \<in> set (list_pg_commissions rows q)"
    then have "e \<in> snd ` set seen" by (simp add: res)
    then obtain g where "(g, e) \<in> set seen" by auto
    from item [OF this] show "\<exists>pre r post.
           filter (\<lambda>x. passes norm_q x \<and> pg_of x = entryProductGroup e) rows = pre @ r # post
           \<and> (\<forall>x \<in> set pre. effective x < effective r)
           \<and> (\<forall>x \<in> set post. effective x \<le> effective r)
           \<and> e = entry_of r"
      by blast
  qed
qed

text \<open>
  Claim C5 at a failing input. The product group \<open>Kulaklik\<close> is listed twice; the first
  row has no rate, which the loader of a file with the four canonical columns leaves as
  NaN, the second has 15. The comparison \<open>15 > NaN\<close> is false, so the entry of the first
  row stays and the group is reported with NaN instead of its maximum 15. With the rates
  10 and 15 the group is reported once, with 15.
\<close>

theorem list_pg_commissions_nan_hides_maximum:
  "list_pg_commissions [pg_row ''Ses'' NaN, pg_row ''Aksesuar'' (Num 15)] []
     = [\<lparr> entryProductGroup = ascii ''Kulaklik'', entryCommissionPercent = Some FNaN,
           entryCommissionText = ascii ''nan%'' \<rparr>]
   \<and> list_pg_commissions [pg_row ''Ses'' (Num 10), pg_row ''Aksesuar'' (Num 15)] []
     = [\<lparr> entryProductGroup = ascii ''Kulaklik'', entryCommissionPercent = Some (F 15),
           entryCommissionText = ascii ''15,00%'' \<rparr>]"
  by (simp add: pg_simps)

section \<open>Column resolver and row normalizer\<close>

lemmas col_defs = col_ana_kategori_def col_kategori_def col_alt_kategori_def
  col_urun_grubu_def col_urun_grubu_ascii_def col_urun_grubu_snake_def col_komisyon_kdv_def
  col_uygulanan_def col_komisyon_lower_def col_komisyon_def col_satis_komisyonu_def
  col_komisyon_orani_def col_revize_orani_def col_komisyon_oranlari_def

lemma col_names_differ:
  "col_ana_kategori \<noteq> []" "col_kategori \<noteq> []" "col_ana_kategori \<noteq> col_kategori"
  by (simp_all add: col_defs ascii_simps)

text \<open>The commission values do not depend on how the text columns are bound.\<close>

lemma normalize_to_flat4_bound:
  assumes "pick_first_present df (product_group cands) = Some g" "g \<noteq> []"
    and "or_empty (pick_first_present df (category cands)) = c"
    and "or_empty (pick_first_present df (sub_category cands)) = s"
    and "c \<noteq> [] \<or> s \<noteq> []"
  shows "\<exists>vals. length vals = length (records df) \<and>
     normalize_to_flat4 df cands =
       Inr (drop_duplicates
              (filter (\<lambda>r. kategori r \<noteq> [] \<or> alt_kategori r \<noteq> [] \<or> urun_grubu r \<noteq> [])
                 (if c \<noteq> [] \<and> s \<noteq> [] \<and> c \<noteq> s then flat_rows df c (Some s) g vals
                  else flat_rows df (if c \<noteq> [] then c else s) None g vals)))"
proof -
  define vals where "vals =
    (if or_empty (pick_first_present df (commission cands)) \<noteq> []
     then fix_scale (map (\<lambda>r. extract_number
            (r (or_empty (pick_first_present df (commission cands))))) (records df))
     else replicate (length (records df)) None)"
  have "length vals = length (records df)"
    by (simp add: vals_def fix_scale_def)
  moreover have "normalize_to_flat4 df cands =
       Inr (drop_duplicates
              (filter (\<lambda>r. kategori r \<noteq> [] \<or> alt_kategori r \<noteq> [] \<or> urun_grubu r \<noteq> [])
                 (if c \<noteq> [] \<and> s \<noteq> [] \<and> c \<noteq> s then flat_rows df c (Some s) g vals
                  else flat_rows df (if c \<noteq> [] then c else s) None g vals)))"
    using assms by (auto simp: normalize_to_flat4_def Let_def or_empty_def vals_def)
  ultimately show ?thesis by blast
qed

text \<open>
  Claim C6, as the code has it. Take a table with the columns \<open>Ana Kategori\<close> and
  \<open>Kategori\<close>, without \<open>Alt Kategori\<close>, in which a product-group column resolves. Under
  the candidate lists of Trendyol and Hepsiburada the canonical category is read from
  \<open>Ana Kategori\<close> and the canonical sub-category from \<open>Kategori\<close>. Under the lists of
  N11, Amazon, Ciceksepeti and PTTAVM the canonical category is read from \<open>Kategori\<close>, the
  sub-category is empty and \<open>Ana Kategori\<close> is not read. In both cases the binding is
  fixed by the column names alone: the equations hold whatever the records are.
\<close>

theorem normalize_to_flat4_category_binding:
  assumes "col_ana_kategori \<in> set (columns df)" and "col_kategori \<in> set (columns df)"
    and "col_alt_kategori \<notin> set (columns df)"
    and "pick_first_present df (product_group cands) = Some g" and "g \<noteq> []"
  shows "(cands \<in> {trendyol_candidates, hepsiburada_candidates} \<longrightarrow>
           (\<exists>vals. length vals = length (records df) \<and>
              normalize_to_flat4 df cands =
                Inr (drop_duplicates
                  (filter (\<lambda>r. kategori r \<noteq> [] \<or> alt_kategori r \<noteq> [] \<or> urun_grubu r \<noteq> [])
                     (flat_rows df col_ana_kategori (Some col_kategori) g vals)))))
       \<and> (cands \<in> {n11_candidates, amazon_candidates, ciceksepeti_candidates,
                     pttavm_candidates} \<longrightarrow>
           (\<exists>vals. length vals = length (records df) \<and>
              normalize_to_flat4 df cands =
                Inr (drop_duplicates
                  (filter (\<lambda>r. kategori r \<noteq> [] \<or> alt_kategori r \<noteq> [] \<or> urun_grubu r \<noteq> [])
                     (flat_rows df col_kategori None g vals)))))"
proof (intro conjI impI)
  assume "cands \<in> {trendyol_candidates, hepsiburada_candidates}"
  then have c: "or_empty (pick_first_present df (category cands)) = col_ana_kategori"
    and s: "or_empty (pick_first_present df (sub_category cands)) = col_kategori"
    using assms(1,2)
    by (auto simp: trendyol_candidates_def hepsiburada_candidates_def or_empty_def)
  from normalize_to_flat4_bound [OF assms(4,5) c s] col_names_differ
  show "\<exists>vals. length vals = length (records df) \<and>
      normalize_to_flat4 df cands =
        Inr (drop_duplicates
          (filter (\<lambda>r. kategori r \<noteq> [] \<or> alt_kategori r \<noteq> [] \<or> urun_grubu r \<noteq> [])
             (flat_rows df col_ana_kategori (Some col_kategori) g vals)))"
    by simp
next
  assume "cands \<in> {n11_candidates, amazon_candidates, ciceksepeti_candidates,
                     pttavm_candidates}"
  then have c: "or_empty (pick_first_present df (category cands)) = col_kategori"
    and s: "or_empty (pick_first_present df (sub_category cands)) = col_kategori
            \<or> or_empty (pick_first_present df (sub_category cands)) = []"
    using assms(1,2,3)
    by (auto simp: n11_candidates_def amazon_candidates_def ciceksepeti_candidates_def
        pttavm_candidates_def or_empty_def)
  from s show "\<exists>vals. length vals = length (records df) \<and>
      normalize_to_flat4 df cands =
        Inr (drop_duplicates
          (filter (\<lambda>r. kategori r \<noteq> [] \<or> alt_kategori r \<noteq> [] \<or> urun_grubu r \<noteq> [])
             (flat_rows df col_kategori None g vals)))"
  proof
    assume s1: "or_empty (pick_first_present df (sub_category cands)) = col_kategori"
    from normalize_to_flat4_bound [OF assms(4,5) c s1] col_names_differ
    show ?thesis by simp
  next
    assume s2: "or_empty (pick_first_present df (sub_category cands)) = []"
    from normalize_to_flat4_bound [OF assms(4,5) c s2] col_names_differ
    show ?thesis by simp
  qed
qed

lemma hb_table_columns:
  "col_ana_kategori \<in> set (columns hb_table)" "col_kategori \<in> set (columns hb_table)"
  "col_alt_kategori \<notin> set (columns hb_table)"
  "pick_first_present hb_table (product_group hepsiburada_candidates) = Some col_urun_grubu"
  "pick_first_present hb_table (product_group n11_candidates) = Some col_urun_grubu"
  "col_urun_grubu \<noteq> []"
  by (simp_all add: hb_table_def hepsiburada_candidates_def n11_candidates_def col_defs
      ascii_simps)

theorem normalize_to_flat4_category_binding_witness:
  "col_ana_kategori \<in> set (columns hb_table) \<and> col_kategori \<in> set (columns hb_table)
   \<and> col_alt_kategori \<notin> set (columns hb_table)
   \<and> pick_first_present hb_table (product_group hepsiburada_candidates) = Some col_urun_grubu
   \<and> col_urun_grubu \<noteq> []
   \<and> (\<exists>vals. length vals = length (records hb_table) \<and>
         normalize_to_flat4 hb_table hepsiburada_candidates =
           Inr (drop_duplicates
             (filter (\<lambda>r. kategori r \<noteq> [] \<or> alt_kategori r \<noteq> [] \<or> urun_grubu r \<noteq> [])
                (flat_rows hb_table col_ana_kategori (Some col_kategori) col_urun_grubu vals))))
   \<and> (\<exists>vals. length vals = length (records hb_table) \<and>
         normalize_to_flat4 hb_table n11_candidates =
           Inr (drop_duplicates
             (filter (\<lambda>r. kategori r \<noteq> [] \<or> alt_kategori r \<noteq> [] \<or> urun_grubu r \<noteq> [])
                (flat_rows hb_table col_kategori None col_urun_grubu vals))))"
proof -
  note hb = normalize_to_flat4_category_binding
    [OF hb_table_columns(1,2,3) hb_table_columns(4) hb_table_columns(6)]
  note n11 = normalize_to_flat4_category_binding
    [OF hb_table_columns(1,2,3) hb_table_columns(5) hb_table_columns(6)]
  have a: "hepsiburada_candidates \<in> {trendyol_candidates, hepsiburada_candidates}"
    by simp
  have b: "n11_candidates \<in> {n11_candidates, amazon_candidates, ciceksepeti_candidates,
      pttavm_candidates}"
    by simp
  from hb [THEN conjunct1, THEN mp, OF a] n11 [THEN conjunct2, THEN mp, OF b]
    hb_table_columns(1,2,3,4,6)
  show ?thesis by (intro conjI)
qed

lemma hb_table_cells:
  "hb_record col_ana_kategori = ascii ''Elektronik''"
  "hb_record col_kategori = ascii '' Telefon ''"
  "hb_record col_urun_grubu = ascii ''Kilif''"
  "hb_record col_komisyon_kdv = ascii ''%18,5''"
  by (simp_all add: hb_record_def col_defs ascii_simps)

lemma hb_table_texts:
  "py_strip (ascii ''Elektronik'') = ascii ''Elektronik''"
  "py_strip (ascii '' Telefon '') = ascii ''Telefon''"
  "py_strip (ascii ''Kilif'') = ascii ''Kilif''"
  by (simp_all add: py_strip_def is_space_def ascii_simps)

lemma ascii_nonempty: "ascii (c # cs) \<noteq> []"
  by (simp add: ascii_def)

lemma hb_table_rate: "extract_number (ascii ''%18,5'') = Some (37 / 2)"
  by (simp add: extract_number_def replace_char_def py_strip_def is_space_def is_digit_def
      digits_value_def ascii_simps Let_def)

lemma fix_scale_single: "1 < x \<Longrightarrow> fix_scale [Some x] = [Some x]"
  by (simp add: fix_scale_def non_missing_def quantile95_def)

lemma hb_table_picks:
  "or_empty (pick_first_present hb_table (category n11_candidates)) = col_kategori"
  "or_empty (pick_first_present hb_table (sub_category n11_candidates)) = col_kategori"
  "or_empty (pick_first_present hb_table (category hepsiburada_candidates)) = col_ana_kategori"
  "or_empty (pick_first_present hb_table (sub_category hepsiburada_candidates)) = col_kategori"
  "or_empty (pick_first_present hb_table (product_group n11_candidates)) = col_urun_grubu"
  "or_empty (pick_first_present hb_table (product_group hepsiburada_candidates)) = col_urun_grubu"
  "or_empty (pick_first_present hb_table (commission n11_candidates)) = col_komisyon_kdv"
  "or_empty (pick_first_present hb_table (commission hepsiburada_candidates)) = col_komisyon_kdv"
  "col_komisyon_kdv \<noteq> []"
  by (simp_all add: hb_table_def hepsiburada_candidates_def n11_candidates_def col_defs
      ascii_simps or_empty_def)

lemma hb_table_results:
  "normalize_to_flat4 hb_table n11_candidates
       = Inr [\<lparr> kategori = ascii ''Telefon'', alt_kategori = [],
               urun_grubu = ascii ''Kilif'', komisyon = Num (37 / 2) \<rparr>]"
  "normalize_to_flat4 hb_table hepsiburada_candidates
       = Inr [\<lparr> kategori = ascii ''Elektronik'', alt_kategori = ascii ''Telefon'',
               urun_grubu = ascii ''Kilif'', komisyon = Num (37 / 2) \<rparr>]"
proof -
  have r: "records hb_table = [hb_record]"
    by (simp add: hb_table_def)
  have f: "fix_scale [Some (37 / 2)] = [Some (37 / 2)]"
    by (rule fix_scale_single) simp
  show "normalize_to_flat4 hb_table n11_candidates
       = Inr [\<lparr> kategori = ascii ''Telefon'', alt_kategori = [],
               urun_grubu = ascii ''Kilif'', komisyon = Num (37 / 2) \<rparr>]"
    by (simp add: normalize_to_flat4_def Let_def hb_table_picks hb_table_columns(6)
        col_names_differ r hb_table_cells hb_table_rate f flat_rows_def hb_table_texts
        number_cell_def drop_duplicates_def ascii_nonempty)
  show "normalize_to_flat4 hb_table hepsiburada_candidates
       = Inr [\<lparr> kategori = ascii ''Elektronik'', alt_kategori = ascii ''Telefon'',
               urun_grubu = ascii ''Kilif'', komisyon = Num (37 / 2) \<rparr>]"
    by (simp add: normalize_to_flat4_def Let_def hb_table_picks hb_table_columns(6)
        col_names_differ r hb_table_cells hb_table_rate f flat_rows_def hb_table_texts
        number_cell_def drop_duplicates_def ascii_nonempty)
qed

text \<open>
  Claim C6 as stated fails under the candidate lists of N11: on a table with
  \<open>Ana Kategori\<close> and \<open>Kategori\<close> and no \<open>Alt Kategori\<close>, the canonical category is the
  \<open>Kategori\<close> cell, the sub-category is empty and the main category is dropped.
\<close>

theorem normalize_to_flat4_n11_counterexample:
  "col_ana_kategori \<in> set (columns hb_table) \<and> col_kategori \<in> set (columns hb_table)
   \<and> col_alt_kategori \<notin> set (columns hb_table)
   \<and> hb_record col_ana_kategori = ascii ''Elektronik''
   \<and> hb_record col_kategori = ascii '' Telefon ''
   \<and> normalize_to_flat4 hb_table n11_candidates
       = Inr [\<lparr> kategori = ascii ''Telefon'', alt_kategori = [],
               urun_grubu = ascii ''Kilif'', komisyon = Num (37 / 2) \<rparr>]
   \<and> normalize_to_flat4 hb_table hepsiburada_candidates
       = Inr [\<lparr> kategori = ascii ''Elektronik'', alt_kategori = ascii ''Telefon'',
               urun_grubu = ascii ''Kilif'', komisyon = Num (37 / 2) \<rparr>]"
  using hb_table_columns(1,2,3) hb_table_cells(1,2) hb_table_results
  by (intro conjI)

section \<open>Scale normalization\<close>










section \<open>Decimal arithmetic\<close>

lemma digit_count_bounds_int:
  "0 < n \<Longrightarrow> 1 \<le> digit_count n \<and> 10 ^ nat (digit_count n - 1) \<le> n
     \<and> n < 10 ^ nat (digit_count n)"
proof (induction n rule: digit_count.induct)
  case (1 n)
  show ?case
  proof (cases "n < 10")
    case True
    with "1.prems" show ?thesis
      by (simp add: digit_count.simps [of n])
  next
    case False
    define d where "d = digit_count (n div 10)"
    from False have pos: "0 < n div 10" by simp
    from "1.IH" [OF False pos]
    have d1: "1 \<le> d" and lo: "10 ^ nat (d - 1) \<le> n div 10" and hi: "n div 10 < 10 ^ nat d"
      by (simp_all add: d_def)
    have dc: "digit_count n = 1 + d"
      using False by (simp add: digit_count.simps [of n] d_def)
    from d1 have nd: "nat d = Suc (nat (d - 1))" by simp
    have "(10 :: int) ^ nat d = 10 * 10 ^ nat (d - 1)"
      by (subst nd) simp
    also have "\<dots> \<le> 10 * (n div 10)"
      using lo by simp
    also have "\<dots> \<le> n"
      by simp
    finally have a: "10 ^ nat d \<le> n" .
    from hi have "n div 10 + 1 \<le> 10 ^ nat d" by simp
    then have "10 * (n div 10 + 1) \<le> 10 * 10 ^ nat d" by simp
    moreover have "n < 10 * (n div 10 + 1)"
      by presburger
    ultimately have b: "n < 10 * 10 ^ nat d" by linarith
    from d1 have "nat (1 + d) = Suc (nat d)" by simp
    with a b d1 show ?thesis
      by (simp add: dc)
  qed
qed

lemma powi_of_nat_power: "0 \<le> k \<Longrightarrow> (10 :: rat) powi k = of_int (10 ^ nat k)"
  by (simp add: power_int_def)

lemma digit_count_bounds:
  assumes "0 < n"
  shows "10 powi (digit_count n - 1) \<le> (of_int n :: rat)"
    and "(of_int n :: rat) < 10 powi (digit_count n)"
proof -
  from digit_count_bounds_int [OF assms]
  have d1: "1 \<le> digit_count n" and lo: "10 ^ nat (digit_count n - 1) \<le> n"
    and hi: "n < 10 ^ nat (digit_count n)"
    by simp_all
  from lo have "(of_int (10 ^ nat (digit_count n - 1)) :: rat) \<le> of_int n"
    by (simp only: of_int_le_iff)
  with d1 show "10 powi (digit_count n - 1) \<le> (of_int n :: rat)"
    by (simp add: powi_of_nat_power)
  from hi have "(of_int n :: rat) < of_int (10 ^ nat (digit_count n))"
    by (simp only: of_int_less_iff)
  with d1 show "(of_int n :: rat) < 10 powi (digit_count n)"
    by (simp add: powi_of_nat_power)
qed

lemma adjusted_bounds:
  assumes "x \<noteq> 0"
  shows "10 powi (adjusted x) \<le> \<bar>x\<bar>" and "\<bar>x\<bar> < 10 powi (adjusted x + 1)"
proof -
  obtain a b where q: "quotient_of \<bar>x\<bar> = (a, b)"
    by (cases "quotient_of \<bar>x\<bar>")
  then have b: "0 < b" and x: "\<bar>x\<bar> = of_int a / of_int b"
    by (simp_all add: quotient_of_denom_pos quotient_of_div)
  from assms have "0 < \<bar>x\<bar>" by simp
  with x b have a: "0 < a"
    by (simp add: zero_less_divide_iff)
  define k where "k = digit_count a - digit_count b"
  note A = digit_count_bounds [OF a] and B = digit_count_bounds [OF b]
  have bpos: "(0 :: rat) < of_int b" using b by simp
  have "\<bar>x\<bar> < 10 powi (digit_count a) / of_int b"
    unfolding x using A(2) bpos by (simp add: divide_strict_right_mono)
  also have "\<dots> \<le> 10 powi (digit_count a) / 10 powi (digit_count b - 1)"
    using B(1) by (intro frac_le) simp_all
  also have "\<dots> = 10 powi (digit_count a - (digit_count b - 1))"
    by (rule power_int_diff [symmetric]) simp
  also have "digit_count a - (digit_count b - 1) = k + 1"
    by (simp add: k_def)
  finally have up: "\<bar>x\<bar> < 10 powi (k + 1)" .
  have "k - 1 = digit_count a - 1 - digit_count b"
    by (simp add: k_def)
  then have "10 powi (k - 1) = (10 :: rat) powi (digit_count a - 1 - digit_count b)"
    by (rule arg_cong)
  also have "\<dots> = 10 powi (digit_count a - 1) / (10 :: rat) powi (digit_count b)"
    by (rule power_int_diff) simp
  also have "\<dots> \<le> of_int a / 10 powi (digit_count b)"
    using A(1) by (simp add: divide_right_mono)
  also have "\<dots> \<le> of_int a / of_int b"
    using B(2) a bpos by (intro frac_le) simp_all
  finally have lo: "10 powi (k - 1) \<le> \<bar>x\<bar>"
    by (simp add: x)
  have adj: "adjusted x = (if 10 powi k \<le> \<bar>x\<bar> then k else k - 1)"
    by (simp add: adjusted_def q k_def Let_def)
  show "10 powi (adjusted x) \<le> \<bar>x\<bar>"
    using lo by (simp add: adj)
  show "\<bar>x\<bar> < 10 powi (adjusted x + 1)"
    using up by (simp add: adj)
qed

lemma adjusted_less:
  assumes "x \<noteq> 0" "\<bar>x\<bar> < 10 powi k"
  shows "adjusted x < k"
proof (rule ccontr)
  assume "\<not> adjusted x < k"
  then have "k \<le> adjusted x" by simp
  then have "(10 :: rat) powi k \<le> 10 powi (adjusted x)"
    by (intro power_int_increasing) simp_all
  with adjusted_bounds(1) [OF assms(1)] assms(2) show False by simp
qed

lemma round_half_even_error: "\<bar>of_int (round_half_even z) - z\<bar> \<le> 1 / 2"
proof -
  have "of_int \<lfloor>z\<rfloor> \<le> z" "z < of_int \<lfloor>z\<rfloor> + 1"
    by linarith+
  then show ?thesis
    by (auto simp: round_half_even_def Let_def)
qed

lemma round_half_up_error: "\<bar>of_int (round_half_up z) - z\<bar> \<le> 1 / 2"
proof (cases "0 \<le> z")
  case True
  then have r: "round_half_up z = \<lfloor>z + 1 / 2\<rfloor>"
    by (simp add: round_half_up_def)
  have "of_int \<lfloor>z + 1 / 2\<rfloor> \<le> z + 1 / 2" "z + 1 / 2 < of_int \<lfloor>z + 1 / 2\<rfloor> + 1"
    by linarith+
  then show ?thesis
    unfolding r by linarith
next
  case False
  then have r: "round_half_up z = - \<lfloor>- z + 1 / 2\<rfloor>"
    by (simp add: round_half_up_def)
  have "of_int \<lfloor>- z + 1 / 2\<rfloor> \<le> - z + 1 / 2" "- z + 1 / 2 < of_int \<lfloor>- z + 1 / 2\<rfloor> + 1"
    by linarith+
  then show ?thesis
    unfolding r of_int_minus by linarith
qed

lemma round_near_int:
  assumes "\<bar>z - of_int n\<bar> < 1 / 2"
  shows "round_half_even z = n" and "round_half_up z = n"
proof -
  from round_half_even_error [of z] assms
  have "\<bar>(of_int (round_half_even z) :: rat) - of_int n\<bar> < 1" by linarith
  then have "\<bar>(of_int (round_half_even z - n) :: rat)\<bar> < 1" by simp
  then have "\<bar>round_half_even z - n\<bar> < 1"
    by (metis of_int_abs of_int_less_1_iff)
  then show "round_half_even z = n" by simp
  from round_half_up_error [of z] assms
  have "\<bar>(of_int (round_half_up z) :: rat) - of_int n\<bar> < 1" by linarith
  then have "\<bar>(of_int (round_half_up z - n) :: rat)\<bar> < 1" by simp
  then have "\<bar>round_half_up z - n\<bar> < 1"
    by (metis of_int_abs of_int_less_1_iff)
  then show "round_half_up z = n" by simp
qed


lemma round_of_int [simp]:
  "round_half_even (of_int n) = n" "round_half_up (of_int n) = n"
  using round_near_int [of "of_int n" n] by simp_all

text \<open>A number with a coefficient of at most 28 digits is not changed by the context.\<close>

lemma ctx_round_exact:
  assumes "x = of_int n * 10 powi j" and "\<bar>n\<bar> < 10 ^ 28"
  shows "ctx_round x = x"
proof (cases "x = 0")
  case True
  then show ?thesis by (simp add: ctx_round_def)
next
  case False
  define e where "e = adjusted x - 27"
  from assms(2) have "\<bar>(of_int n :: rat)\<bar> < of_int (10 ^ 28)"
    by (simp only: of_int_abs [symmetric] of_int_less_iff)
  then have "\<bar>(of_int n :: rat)\<bar> < 10 powi 28" by simp
  then have "\<bar>(of_int n :: rat)\<bar> * 10 powi j < 10 powi 28 * 10 powi j"
    by (intro mult_strict_right_mono) simp_all
  also have "\<dots> = (10 :: rat) powi (28 + j)"
    by (rule power_int_add [symmetric]) simp
  finally have "\<bar>x\<bar> < 10 powi (28 + j)"
    by (simp add: assms(1) abs_mult)
  from adjusted_less [OF False this] have ej: "e \<le> j" by (simp add: e_def)
  have "10 powi j = (10 :: rat) powi (j - e) * 10 powi e"
    by (subst power_int_add [symmetric]) simp_all
  also have "(10 :: rat) powi (j - e) = of_int (10 ^ nat (j - e))"
    using ej by (simp add: powi_of_nat_power)
  finally have xm: "x = of_int (n * 10 ^ nat (j - e)) * 10 powi e"
    by (simp add: assms(1))
  then have "x / 10 powi e = of_int (n * 10 ^ nat (j - e))"
    by simp
  then have "round_half_even (x / 10 powi e) = n * 10 ^ nat (j - e)"
    by (simp only: round_of_int)
  then have "of_int (round_half_even (x / 10 powi e)) * 10 powi e = x"
    using xm by simp
  with False show ?thesis
    by (simp add: ctx_round_def prec_def e_def Let_def)
qed

lemma ctx_round_cents: "\<bar>n\<bar> < 10 ^ 28 \<Longrightarrow> ctx_round (of_int n / 100) = of_int n / 100"
  by (rule ctx_round_exact [where n = n and j = "- 2"]) simp_all





section \<open>Withholding ratio\<close>

lemmas decimal_of_str_simps = decimal_of_str_def other_notation_char_def notation_char_def
  is_digit_def is_space_def unsigned_part_def exponent_part_def digits_value_def ascii_simps
  Let_def

lemma decimal_of_str_examples:
  "decimal_of_str (ascii ''1'') = Inr 1" "decimal_of_str (ascii ''0.0'') = Inr 0"
  "decimal_of_str (ascii ''00'') = Inr 0" "decimal_of_str (ascii ''7'') = Inr 7"
  "decimal_of_str (ascii ''10'') = Inr 10" "decimal_of_str (ascii ''3'') = Inr 3"
  "decimal_of_str (ascii ''2'') = Inr 2" "decimal_of_str (ascii ''20'') = Inr 20"
  "decimal_of_str (ascii ''150'') = Inr 150"
  by (simp_all add: decimal_of_str_simps)

lemma ctx_round_examples:
  "ctx_round (7 / 10) = 7 / 10" "ctx_round (3 / 2) = 3 / 2" "ctx_round (1 / 5) = 1 / 5"
  using ctx_round_cents [of 70] ctx_round_cents [of 150] ctx_round_cents [of 20]
  by simp_all

text \<open>What the parser returns for a fraction text and for a bare number, in terms of the
  numbers its parts denote.\<close>

lemma parse_withholding_fraction:
  assumes "filter (\<lambda>c. c \<noteq> 32) (py_strip t) = a @ 47 # b" and "47 \<notin> set a"
    and "b \<noteq> ascii ''0''"
    and "decimal_of_str a = Inr da" and "decimal_of_str b = Inr db"
  shows "parse_withholding (Some t) =
           (if db = 0 then (if da = 0 then Inl DivisionUndefined else Inl DivisionByZero)
            else Inr (min (max (ctx_round (da / db)) 0) 1))"
proof -
  from assms(2) have "takeWhile (\<lambda>c. c \<noteq> 47) (a @ 47 # b) = a"
    by (induction a) auto
  moreover from assms(2) have "dropWhile (\<lambda>c. c \<noteq> 47) (a @ 47 # b) = 47 # b"
    by (induction a) auto
  ultimately show ?thesis
    using assms(1,3,4,5)
    by (simp add: parse_withholding_def Let_def and_then_def ddiv_def)
qed

lemma parse_withholding_zero_text:
  assumes "filter (\<lambda>c. c \<noteq> 32) (py_strip t) = a @ 47 # ascii ''0''" and "47 \<notin> set a"
  shows "parse_withholding (Some t) = Inr 0"
proof -
  from assms(2) have "dropWhile (\<lambda>c. c \<noteq> 47) (a @ 47 # ascii ''0'') = 47 # ascii ''0''"
    by (induction a) auto
  then show ?thesis
    using assms(1) by (simp add: parse_withholding_def Let_def)
qed

lemma parse_withholding_number:
  assumes "filter (\<lambda>c. c \<noteq> 32) (py_strip t) = s" and "47 \<notin> set s"
    and "decimal_of_str s = Inr v"
  shows "parse_withholding (Some t) =
           Inr (min (max (if 1 < v then ctx_round (v / 100) else v) 0) 1)"
  using assms by (auto simp: parse_withholding_def Let_def and_then_def min_def max_def)

lemma split_examples:
  "filter (\<lambda>c. c \<noteq> 32) (py_strip (ascii ''1/0.0'')) = ascii ''1'' @ 47 # ascii ''0.0''"
  "filter (\<lambda>c. c \<noteq> 32) (py_strip (ascii ''1/00'')) = ascii ''1'' @ 47 # ascii ''00''"
  "filter (\<lambda>c. c \<noteq> 32) (py_strip (ascii ''1/0'')) = ascii ''1'' @ 47 # ascii ''0''"
  "filter (\<lambda>c. c \<noteq> 32) (py_strip (ascii ''7/10'')) = ascii ''7'' @ 47 # ascii ''10''"
  "filter (\<lambda>c. c \<noteq> 32) (py_strip (ascii ''3/2'')) = ascii ''3'' @ 47 # ascii ''2''"
  "filter (\<lambda>c. c \<noteq> 32) (py_strip (ascii ''20'')) = ascii ''20''"
  "filter (\<lambda>c. c \<noteq> 32) (py_strip (ascii ''150'')) = ascii ''150''"
  by (simp_all add: py_strip_def is_space_def ascii_simps)

lemma no_slash_examples:
  "47 \<notin> set (ascii ''1'')" "47 \<notin> set (ascii ''7'')" "47 \<notin> set (ascii ''3'')"
  "47 \<notin> set (ascii ''20'')" "47 \<notin> set (ascii ''150'')"
  "ascii ''0.0'' \<noteq> ascii ''0''" "ascii ''00'' \<noteq> ascii ''0''"
  "ascii ''10'' \<noteq> ascii ''0''" "ascii ''2'' \<noteq> ascii ''0''"
  by (simp_all add: ascii_simps)

text \<open>
  Claim C7 at a failing input. A denominator that is zero but is not written as the
  single character \<open>0\<close> passes the guard \<^verbatim>\<open>b == "0"\<close>, and the division raises
  \<open>DivisionByZero\<close> instead of giving ratio 0: so for \<open>1/0.0\<close> and \<open>1/00\<close>. The other
  parts of the claim are as the code has them: \<open>1/0\<close> gives 0, \<open>7/10\<close> gives 0.7, \<open>3/2\<close> is
  clamped to 1, the bare numbers 20 and 150 are taken as percent and give 0.2 and the
  clamped 1, and a missing input gives 0.
\<close>

theorem parse_withholding_zero_denominator:
  "parse_withholding (Some (ascii ''1/0.0'')) = Inl DivisionByZero
   \<and> parse_withholding (Some (ascii ''1/00'')) = Inl DivisionByZero
   \<and> parse_withholding (Some (ascii ''1/0'')) = Inr 0
   \<and> parse_withholding (Some (ascii ''7/10'')) = Inr (7 / 10)
   \<and> parse_withholding (Some (ascii ''3/2'')) = Inr 1
   \<and> parse_withholding (Some (ascii ''20'')) = Inr (1 / 5)
   \<and> parse_withholding (Some (ascii ''150'')) = Inr 1
   \<and> parse_withholding None = Inr 0"
proof (intro conjI)
  show "parse_withholding (Some (ascii ''1/0.0'')) = Inl DivisionByZero"
    using parse_withholding_fraction [OF split_examples(1) no_slash_examples(1)
        no_slash_examples(6) decimal_of_str_examples(1) decimal_of_str_examples(2)]
    by simp
  show "parse_withholding (Some (ascii ''1/00'')) = Inl DivisionByZero"
    using parse_withholding_fraction [OF split_examples(2) no_slash_examples(1)
        no_slash_examples(7) decimal_of_str_examples(1) decimal_of_str_examples(3)]
    by simp
  show "parse_withholding (Some (ascii ''1/0'')) = Inr 0"
    by (rule parse_withholding_zero_text [OF split_examples(3) no_slash_examples(1)])
  show "parse_withholding (Some (ascii ''7/10'')) = Inr (7 / 10)"
    using parse_withholding_fraction [OF split_examples(4) no_slash_examples(2)
        no_slash_examples(8) decimal_of_str_examples(4) decimal_of_str_examples(5)]
    by (simp add: ctx_round_examples)
  show "parse_withholding (Some (ascii ''3/2'')) = Inr 1"
    using parse_withholding_fraction [OF split_examples(5) no_slash_examples(3)
        no_slash_examples(9) decimal_of_str_examples(6) decimal_of_str_examples(7)]
    by (simp add: ctx_round_examples)
  show "parse_withholding (Some (ascii ''20'')) = Inr (1 / 5)"
    using parse_withholding_number [OF split_examples(6) no_slash_examples(4)
        decimal_of_str_examples(8)]
    by (simp add: ctx_round_examples)
  show "parse_withholding (Some (ascii ''150'')) = Inr 1"
    using parse_withholding_number [OF split_examples(7) no_slash_examples(5)
        decimal_of_str_examples(9)]
    by (simp add: ctx_round_examples)
  show "parse_withholding None = Inr 0"
    by (simp add: parse_withholding_def)
qed

section \<open>Deriving prices from the VAT amount\<close>






section \<open>Adding and removing VAT\<close>











end
